theory Spec2Isabelle
  imports Main "HOL-Library.Char_ord" "HOL-Library.List_Lexorder"
begin

section \<open>Python values used by app.py\<close>

text \<open>
  Python strings are modelled as \<open>string\<close>, a character standing for a code point
  below 256; the characters the application itself writes are ASCII.  An \<open>Optional[str]\<close> is a \<open>string option\<close>.  The exceptions
  that the code can meet are values of \<open>py_exn\<close>; all of them are subclasses of
  Python's \<open>Exception\<close>, and the three OpenAI ones are \<open>openai.APIError\<close> or
  subclasses of it.
\<close>

datatype py_exn =
    APIError | RateLimitError | AuthenticationError
  | IndexError | TypeError | KeyError | AttributeError | OtherException

fun is_APIError :: "py_exn \<Rightarrow> bool" where
  "is_APIError APIError = True"
| "is_APIError RateLimitError = True"
| "is_APIError AuthenticationError = True"
| "is_APIError _ = False"

text \<open>Truthiness of an optional string: \<open>None\<close> and the empty string are falsy.\<close>

fun truthy :: "string option \<Rightarrow> bool" where
  "truthy None = False"
| "truthy (Some s) = (s \<noteq> [])"

text \<open>Python's \<open>a or b\<close> on optional strings: \<open>a\<close> when it is truthy, else \<open>b\<close>.\<close>

definition py_or :: "string option \<Rightarrow> string option \<Rightarrow> string option" where
  "py_or a b = (if truthy a then a else b)"

text \<open>What an f-string writes for an optional string.\<close>

fun fstr :: "string option \<Rightarrow> string" where
  "fstr None = ''None''"
| "fstr (Some s) = s"

subsection \<open>String methods\<close>

text \<open>
  \<open>s.lower()\<close>.  A character of the model is a code point below 256; there
  \<open>str.lower\<close> changes the letters \<open>A\<close> to \<open>Z\<close> and the capital letters of the
  Latin-1 range (U+00C0 to U+00DE without the multiplication sign U+00D7), each to the
  code point 32 above it.  Strings with code points from 256 on are outside the model.
\<close>

definition lower_char :: "char \<Rightarrow> char" where
  "lower_char c =
     (case map_of
             (zip (''ABCDEFGHIJKLMNOPQRSTUVWXYZ'' @
                   [CHR 0xC0, CHR 0xC1, CHR 0xC2, CHR 0xC3, CHR 0xC4, CHR 0xC5, CHR 0xC6,
                    CHR 0xC7, CHR 0xC8, CHR 0xC9, CHR 0xCA, CHR 0xCB, CHR 0xCC, CHR 0xCD,
                    CHR 0xCE, CHR 0xCF, CHR 0xD0, CHR 0xD1, CHR 0xD2, CHR 0xD3, CHR 0xD4,
                    CHR 0xD5, CHR 0xD6, CHR 0xD8, CHR 0xD9, CHR 0xDA, CHR 0xDB, CHR 0xDC,
                    CHR 0xDD, CHR 0xDE])
                  (''abcdefghijklmnopqrstuvwxyz'' @
                   [CHR 0xE0, CHR 0xE1, CHR 0xE2, CHR 0xE3, CHR 0xE4, CHR 0xE5, CHR 0xE6,
                    CHR 0xE7, CHR 0xE8, CHR 0xE9, CHR 0xEA, CHR 0xEB, CHR 0xEC, CHR 0xED,
                    CHR 0xEE, CHR 0xEF, CHR 0xF0, CHR 0xF1, CHR 0xF2, CHR 0xF3, CHR 0xF4,
                    CHR 0xF5, CHR 0xF6, CHR 0xF8, CHR 0xF9, CHR 0xFA, CHR 0xFB, CHR 0xFC,
                    CHR 0xFD, CHR 0xFE])) c of
        None \<Rightarrow> c | Some l \<Rightarrow> l)"

definition lower :: "string \<Rightarrow> string" where
  "lower s = map lower_char s"

text \<open>
  \<open>partition_str sep s\<close> cuts \<open>s\<close> at the first occurrence of \<open>sep\<close>:
  the text before it and the text after it, or \<open>None\<close> when \<open>sep\<close> does not occur.
\<close>

fun partition_str :: "string \<Rightarrow> string \<Rightarrow> (string \<times> string) option" where
  "partition_str sep [] = (if sep = [] then Some ([], []) else None)"
| "partition_str sep (c # cs) =
     (if take (length sep) (c # cs) = sep then Some ([], drop (length sep) (c # cs))
      else (case partition_str sep cs of
              None \<Rightarrow> None
            | Some (before, after) \<Rightarrow> Some (c # before, after)))"

text \<open>\<open>sep in s\<close>.\<close>

definition contains :: "string \<Rightarrow> string \<Rightarrow> bool" where
  "contains sep s = (partition_str sep s \<noteq> None)"

lemma partition_str_shorter:
  "partition_str sep s = Some (before, after) \<Longrightarrow> sep \<noteq> [] \<Longrightarrow> length after < length s"
proof (induction s arbitrary: before)
  case Nil
  then show ?case by simp
next
  case (Cons c cs)
  show ?case
  proof (cases "take (length sep) (c # cs) = sep")
    case True
    with Cons.prems have "after = drop (length sep) (c # cs)" by simp
    with Cons.prems(2) show ?thesis by (cases sep) simp_all
  next
    case False
    with Cons.prems obtain b where "partition_str sep cs = Some (b, after)"
      by (auto split: option.splits)
    from Cons.IH [OF this Cons.prems(2)] show ?thesis by simp
  qed
qed

text \<open>
  \<open>s.split(sep)\<close>: the pieces between the occurrences of \<open>sep\<close>, found from the
  left without overlap.  Python raises \<open>ValueError\<close> for an empty separator; the
  application only splits at the two non-empty literals below, and the model returns
  the whole string as its single piece in that case.
\<close>

function split :: "string \<Rightarrow> string \<Rightarrow> string list" where
  "split sep s =
     (if sep = [] then [s]
      else (case partition_str sep s of
              None \<Rightarrow> [s]
            | Some (before, after) \<Rightarrow> before # split sep after))"
  by pat_completeness auto
termination
  by (relation "measure (\<lambda>(sep, s). length s)") (auto dest: partition_str_shorter)

declare split.simps [simp del]

text \<open>\<open>xs[i]\<close> on a list: \<open>IndexError\<close> out of range.\<close>

definition item :: "'a list \<Rightarrow> nat \<Rightarrow> py_exn + 'a" where
  "item xs i = (if i < length xs then Inr (xs ! i) else Inl IndexError)"

text \<open>
  \<open>s.replace(old, new)\<close>.  For an empty \<open>old\<close> Python puts \<open>new\<close> before every
  character and at the end.
\<close>

function replace :: "string \<Rightarrow> string \<Rightarrow> string \<Rightarrow> string" where
  "replace old new s =
     (if old = [] then new @ concat (map (\<lambda>c. c # new) s)
      else (case partition_str old s of
              None \<Rightarrow> s
            | Some (before, after) \<Rightarrow> before @ new @ replace old new after))"
  by pat_completeness auto
termination
  by (relation "measure (\<lambda>(old, new, s). length s)") (auto dest: partition_str_shorter)

declare replace.simps [simp del]

text \<open>
  \<open>s.strip()\<close> removes leading and trailing whitespace: the characters for which
  \<open>str.isspace\<close> holds, here those below code point 256.
\<close>

definition is_space :: "char \<Rightarrow> bool" where
  "is_space c \<longleftrightarrow>
     c \<in> set [CHR 0x09, CHR 0x0A, CHR 0x0B, CHR 0x0C, CHR 0x0D,
               CHR 0x1C, CHR 0x1D, CHR 0x1E, CHR 0x1F, CHR 0x20, CHR 0x85, CHR 0xA0]"

definition strip :: "string \<Rightarrow> string" where
  "strip s = rev (dropWhile is_space (rev (dropWhile is_space s)))"

text \<open>\<open>s[:n]\<close> is \<open>take n s\<close>.\<close>

subsection \<open>Dates and times\<close>

text \<open>
  A \<open>datetime.datetime\<close>.  The two methods the application calls are
  \<open>isoformat()\<close> and \<open>strftime\<close> with the directives
  \<open>%A %B %d %Y %I %M %p\<close> (C locale names).
\<close>

record datetime =
  year :: nat
  month :: nat
  day :: nat
  hour :: nat
  minute :: nat
  second :: nat
  microsecond :: nat

definition digit :: "nat \<Rightarrow> char" where
  "digit n = ''0123456789'' ! (n mod 10)"

fun digits :: "nat \<Rightarrow> string" where
  "digits n = (if n < 10 then [digit n] else digits (n div 10) @ [digit n])"

declare digits.simps [simp del]

text \<open>Decimal digits, padded with zeros on the left to at least \<open>w\<close> characters.\<close>

definition zpad :: "nat \<Rightarrow> nat \<Rightarrow> string" where
  "zpad w n = replicate (w - length (digits n)) (CHR ''0'') @ digits n"

definition is_leap :: "nat \<Rightarrow> bool" where
  "is_leap y \<longleftrightarrow> y mod 4 = 0 \<and> (y mod 100 \<noteq> 0 \<or> y mod 400 = 0)"

definition days_before_year :: "nat \<Rightarrow> nat" where
  "days_before_year y = (y - 1) * 365 + (y - 1) div 4 - (y - 1) div 100 + (y - 1) div 400"

definition days_before_month :: "nat \<Rightarrow> nat \<Rightarrow> nat" where
  "days_before_month y m =
     [0, 31, 59, 90, 120, 151, 181, 212, 243, 273, 304, 334] ! ((m - 1) mod 12)
       + (if 2 < m \<and> is_leap y then 1 else 0)"

definition toordinal :: "datetime \<Rightarrow> nat" where
  "toordinal d = days_before_year (year d) + days_before_month (year d) (month d) + day d"

text \<open>Monday is 0.\<close>

definition weekday :: "datetime \<Rightarrow> nat" where
  "weekday d = (toordinal d + 6) mod 7"

definition day_name :: "nat \<Rightarrow> string" where
  "day_name n =
     [''Monday'', ''Tuesday'', ''Wednesday'', ''Thursday'', ''Friday'', ''Saturday'',
      ''Sunday''] ! (n mod 7)"

definition month_name :: "nat \<Rightarrow> string" where
  "month_name m =
     [''January'', ''February'', ''March'', ''April'', ''May'', ''June'', ''July'',
      ''August'', ''September'', ''October'', ''November'', ''December''] ! ((m - 1) mod 12)"

definition directive :: "char \<Rightarrow> datetime \<Rightarrow> string" where
  "directive c d =
     (if c = CHR ''A'' then day_name (weekday d)
      else if c = CHR ''B'' then month_name (month d)
      else if c = CHR ''d'' then zpad 2 (day d)
      else if c = CHR ''Y'' then zpad 4 (year d)
      else if c = CHR ''I'' then zpad 2 (if hour d mod 12 = 0 then 12 else hour d mod 12)
      else if c = CHR ''M'' then zpad 2 (minute d)
      else if c = CHR ''p'' then (if hour d < 12 then ''AM'' else ''PM'')
      else [CHR ''%'', c])"

fun strftime :: "datetime \<Rightarrow> string \<Rightarrow> string" where
  "strftime d [] = []"
| "strftime d [c] = [c]"
| "strftime d (c # e # cs) =
     (if c = CHR ''%'' then directive e d @ strftime d cs else c # strftime d (e # cs))"

definition isoformat :: "datetime \<Rightarrow> string" where
  "isoformat d =
     zpad 4 (year d) @ ''-'' @ zpad 2 (month d) @ ''-'' @ zpad 2 (day d) @ ''T''
       @ zpad 2 (hour d) @ '':'' @ zpad 2 (minute d) @ '':'' @ zpad 2 (second d)
       @ (if microsecond d = 0 then [] else ''.'' @ zpad 6 (microsecond d))"

section \<open>The session state\<close>

text \<open>
  The wizard's stage is the string stored under \<open>stage\<close>; the eight values the code
  writes and tests are the constructors below (\<open>Image_Generations\<close> is the string
  \<open>'Image Generations'\<close>).
\<close>

datatype stage =
    Initial | Generate_description | Review_description | Image_Generations
  | Review_images | Generate_newsletter | Review_newsletter | Final

text \<open>The dictionary stored under \<open>user_inputs\<close> by a form submission.\<close>

record user_inputs =
  title :: string
  start_time :: datetime
  end_time :: datetime
  location :: string
  facilitators :: string
  short_desc :: string
  gen_fb :: bool
  gen_ig :: bool
  gen_news :: bool

text \<open>
  \<open>st.session_state\<close> once \<open>init_session_state\<close> has run, which the script does at
  the start of every run.  The dictionary \<open>user_inputs\<close> is empty (\<open>None\<close>) until the
  first submission and holds all nine keys afterwards.
\<close>

record session =
  stage :: stage
  description_approved :: bool
  fb_image_approved :: bool
  ig_image_approved :: bool
  newsletter_approved :: bool
  generated_description :: string
  fb_image_url :: "string option"
  ig_image_url :: "string option"
  newsletter_html :: string
  user_inputs :: "user_inputs option"

text \<open>\<open>init_session_state\<close> on a session with no keys.\<close>

definition init_session_state :: session where
  "init_session_state =
     \<lparr>stage = Initial, description_approved = False, fb_image_approved = False,
      ig_image_approved = False, newsletter_approved = False, generated_description = [],
      fb_image_url = None, ig_image_url = None, newsletter_html = [], user_inputs = None\<rparr>"

text \<open>\<open>st.session_state.user_inputs.get(key, False)\<close> for one of the three flags.\<close>

definition get_flag :: "(user_inputs \<Rightarrow> bool) \<Rightarrow> session \<Rightarrow> bool" where
  "get_flag key s = (case user_inputs s of None \<Rightarrow> False | Some u \<Rightarrow> key u)"

section \<open>The provider\<close>

text \<open>
  The two endpoints of the OpenAI client.  A request is answered by an exception or by
  the list \<open>response.choices\<close> (for images \<open>response.data\<close>), each entry reduced to
  its \<open>message.content\<close> (its \<open>url\<close>), which may be \<open>None\<close>.  The client of one
  script run is any function from requests to answers.
\<close>

datatype request =
    Chat_create (model: string) (system_message: string) (user_message: string)
  | Images_generate (model: string) (prompt: string) (n: nat) (size: string) (quality: string)

type_synonym client = "request \<Rightarrow> py_exn + string option list"

subsection \<open>Agent 1: content writer\<close>

definition content_writer_prompt :: "string \<Rightarrow> string \<Rightarrow> string \<Rightarrow> string" where
  "content_writer_prompt title' facilitators' short_desc' =
     ''\<newline>    You are an expert marketing copywriter for wellness and spiritual events.''
     @ ''\<newline>    Your task is to write a detailed, engaging, and inspiring event description of approximately 10 sentences.''
     @ ''\<newline>    The tone should be welcoming, warm, and vibrant.''
     @ ''\<newline>''
     @ ''\<newline>    Use the following event details to craft your description:''
     @ ''\<newline>    - Event Title: '' @ title'
     @ ''\<newline>    - Facilitators: '' @ facilitators'
     @ ''\<newline>    - Event Type Hint: The title suggests it's a '' @ lower title' @ '' event.''
     @ ''\<newline>''
     @ ''\<newline>    Base your description on these details.''
     @ ''\<newline>    ''
     @ (if short_desc' \<noteq> []
        then ''\<newline>Please also incorporate the following user-provided details or themes: ''
               @ [CHR 0x27] @ short_desc' @ [CHR 0x27]
        else [])"

definition content_writer_request :: "string \<Rightarrow> string \<Rightarrow> string \<Rightarrow> request" where
  "content_writer_request title' facilitators' short_desc' =
     Chat_create ''gpt-4o'' ''You are an expert marketing copywriter for wellness events.''
       (content_writer_prompt title' facilitators' short_desc')"

text \<open>The body of the \<open>try\<close>: the formatted description, or the exception raised.\<close>

definition format_description ::
    "client \<Rightarrow> string \<Rightarrow> datetime \<Rightarrow> datetime \<Rightarrow> string \<Rightarrow> string \<Rightarrow> string \<Rightarrow> py_exn + string" where
  "format_description c title' start_time' end_time' location' facilitators' short_desc' =
     (case c (content_writer_request title' facilitators' short_desc') of
        Inl e \<Rightarrow> Inl e
      | Inr choices \<Rightarrow>
          (case item choices 0 of
             Inl e \<Rightarrow> Inl e
           | Inr generated_text \<Rightarrow>
               Inr (fstr generated_text @ ''\<newline>\<newline>''
                    @ ''**Facilitators:** '' @ facilitators' @ ''\<newline>\<newline>''
                    @ ''**When:** '' @ strftime start_time' ''%A, %B %d, %Y at %I:%M %p''
                    @ '' to '' @ strftime end_time' ''%I:%M %p'' @ ''\<newline>\<newline>''
                    @ ''**Where:** '' @ location')))"

text \<open>
  The three \<open>except\<close> clauses only show a message; between them they catch every
  \<open>Exception\<close>, so the function returns in every case, with the session as it was
  when the call failed.
\<close>

definition run_content_writer_agent ::
    "client \<Rightarrow> string \<Rightarrow> datetime \<Rightarrow> datetime \<Rightarrow> string \<Rightarrow> string \<Rightarrow> string \<Rightarrow> session
       \<Rightarrow> session \<times> request list" where
  "run_content_writer_agent c title' start_time' end_time' location' facilitators' short_desc' s =
     ((case format_description c title' start_time' end_time' location' facilitators' short_desc' of
         Inr formatted_description \<Rightarrow> s\<lparr>generated_description := formatted_description\<rparr>
       | Inl e \<Rightarrow> s),
      [content_writer_request title' facilitators' short_desc'])"

subsection \<open>Agents 2 and 3: image designers\<close>

definition image_prompt :: "string \<Rightarrow> string \<Rightarrow> string" where
  "image_prompt title' description =
     ''\<newline>    Create a visually stunning, high-quality image for a wellness event titled \"''
       @ title' @ ''\".''
     @ ''\<newline>    The image must have the exact text \"'' @ title'
       @ ''\" clearly visible and legible on it.''
     @ ''\<newline>    The aesthetic should be inspiring, serene, and suitable for a spiritual/wellness event (like ecstatic dance, yoga, or meditation).''
     @ ''\<newline>    The image should be vibrant and professional.''
     @ ''\<newline>    Key themes from the event description: '' @ take 500 description
     @ ''\<newline>    ''"

definition image_request :: "string \<Rightarrow> string \<Rightarrow> string \<Rightarrow> request" where
  "image_request title' description size' =
     Images_generate ''dall-e-3'' (image_prompt title' description) 1 size' ''hd''"

text \<open>
  The returned reference and the request made.  After the handler of
  \<open>openai.APIError\<close> the function runs off its end and returns \<open>None\<close>; the handler
  of \<open>Exception\<close> returns \<open>None\<close>.
\<close>

definition run_image_designer_agent ::
    "client \<Rightarrow> string \<Rightarrow> string \<Rightarrow> string \<Rightarrow> string \<Rightarrow> string option \<times> request list" where
  "run_image_designer_agent c title' description size' agent_name =
     ((case c (image_request title' description size') of
         Inl e \<Rightarrow> (if is_APIError e then None else None)
       | Inr data \<Rightarrow>
           (case item data 0 of
              Inl e \<Rightarrow> (if is_APIError e then None else None)
            | Inr image_url \<Rightarrow> image_url)),
      [image_request title' description size'])"

subsection \<open>Agent 4: newsletter composer\<close>

definition newsletter_prompt :: "string \<Rightarrow> string \<Rightarrow> string option \<Rightarrow> string" where
  "newsletter_prompt title' description image_url =
     ''\<newline>    You are an expert email marketer. Create a complete, well-formatted HTML newsletter for a wellness event.''
     @ ''\<newline>    Use the following materials:''
     @ ''\<newline>    - Event Title: '' @ title'
     @ ''\<newline>    - Header Image URL: '' @ fstr image_url
     @ ''\<newline>    - Full Event Description (use this exact text): '' @ description
     @ ''\<newline>''
     @ ''\<newline>    The HTML should be visually appealing, with a clean layout.''
     @ ''\<newline>    - Use the image as a header banner.''
     @ ''\<newline>    - The text should be with black font on white background.''
     @ ''\<newline>    - Use the event title as a main heading (<h1>).''
     @ ''\<newline>    - Include the full description text.''
     @ ''\<newline>    - The HTML should be self-contained and ready to be sent.''
     @ ''\<newline>    ''"

definition newsletter_request :: "string \<Rightarrow> string \<Rightarrow> string option \<Rightarrow> request" where
  "newsletter_request title' description image_url =
     Chat_create ''gpt-4o'' ''You are an expert email marketer specializing in HTML emails.''
       (newsletter_prompt title' description image_url)"

text \<open>
  The clean-up of the provider's text: when it contains the marker \<open>```html\<close>, keep
  what stands between the first marker and the next \<open>```\<close>; then strip whitespace.
  Both indexings are inside the \<open>try\<close>.
\<close>

definition clean_html :: "string \<Rightarrow> py_exn + string" where
  "clean_html html_content =
     (if contains ''```html'' html_content
      then (case item (split ''```html'' html_content) 1 of
              Inl e \<Rightarrow> Inl e
            | Inr inner \<Rightarrow>
                (case item (split ''```'' inner) 0 of
                   Inl e \<Rightarrow> Inl e
                 | Inr html \<Rightarrow> Inr (strip html)))
      else Inr (strip html_content))"

definition compose_newsletter :: "client \<Rightarrow> string \<Rightarrow> string \<Rightarrow> string option \<Rightarrow> py_exn + string" where
  "compose_newsletter c title' description image_url =
     (case c (newsletter_request title' description image_url) of
        Inl e \<Rightarrow> Inl e
      | Inr choices \<Rightarrow>
          (case item choices 0 of
             Inl e \<Rightarrow> Inl e
           | Inr None \<Rightarrow> Inl TypeError
           | Inr (Some html_content) \<Rightarrow> clean_html html_content))"

definition run_newsletter_composer_agent ::
    "client \<Rightarrow> string \<Rightarrow> string \<Rightarrow> string option \<Rightarrow> session \<Rightarrow> session \<times> request list" where
  "run_newsletter_composer_agent c title' description image_url s =
     ((case compose_newsletter c title' description image_url of
         Inr html \<Rightarrow> s\<lparr>newsletter_html := html\<rparr>
       | Inl e \<Rightarrow> s),
      [newsletter_request title' description image_url])"

section \<open>The record store\<close>

text \<open>
  A database file holds the table \<open>events\<close> or does not have it yet; the table keeps
  its rows and the last id it gave out (\<open>AUTOINCREMENT\<close>).  The store is the file
  system as SQLite sees it: \<open>realpath\<close> tells which file a path names (two paths may
  name one file, as \<open>events.db\<close> and \<open>./events.db\<close> do), and \<open>files\<close> holds the
  database files by that name.  \<open>sqlite3.connect\<close> creates a file that is not there.
  The only failure of SQLite that is modelled is the one the program's own statements
  decide: \<open>no such table\<close>.
\<close>

record event_row =
  row_id :: nat
  row_title :: string
  row_start_time :: string
  row_end_time :: string
  row_location :: string
  row_facilitators :: string
  row_description :: string
  row_fb_image_url :: "string option"
  row_ig_image_url :: "string option"
  row_newsletter_html :: string
  row_created_at :: string

record events_table =
  table_rows :: "event_row list"
  last_id :: nat

record database =
  events :: "events_table option"

record store =
  realpath :: "string \<Rightarrow> string"
  files :: "string \<rightharpoonup> database"

definition write_file :: "string \<Rightarrow> database \<Rightarrow> store \<Rightarrow> store" where
  "write_file f d st = st\<lparr>files := (files st)(f \<mapsto> d)\<rparr>"

definition connect :: "string \<Rightarrow> store \<Rightarrow> store" where
  "connect path st =
     (case files st (realpath st path) of
        None \<Rightarrow> write_file (realpath st path) \<lparr>events = None\<rparr> st
      | Some d \<Rightarrow> st)"

text \<open>\<open>DB_FILE = os.getenv("DB_FILE", "events.db")\<close>, from the process environment.\<close>

definition DB_FILE :: "(string \<rightharpoonup> string) \<Rightarrow> string" where
  "DB_FILE env = (case env ''DB_FILE'' of None \<Rightarrow> ''events.db'' | Some v \<Rightarrow> v)"

text \<open>\<open>CREATE TABLE IF NOT EXISTS events\<close> in the file at the configured path.\<close>

definition initialize_database :: "string \<Rightarrow> store \<Rightarrow> store" where
  "initialize_database db_file st =
     (let st1 = connect db_file st
      in (case files st1 (realpath st1 db_file) of
            Some d \<Rightarrow>
              (case events d of
                 None \<Rightarrow>
                   write_file (realpath st1 db_file)
                     (d\<lparr>events := Some \<lparr>table_rows = [], last_id = 0\<rparr>\<rparr>) st1
               | Some t \<Rightarrow> st1)
          | None \<Rightarrow> st1))"

text \<open>
  \<open>save_event_to_db\<close> connects to the literal path \<open>'events.db'\<close>.  The arguments of
  the \<open>INSERT\<close> are built after the connection is made: on an empty \<open>user_inputs\<close>
  the call \<open>.get('start_time').isoformat()\<close> raises \<open>AttributeError\<close>, which the
  handler of \<open>sqlite3.Error\<close> does not catch.  An \<open>INSERT\<close> into a file without the
  table fails with an \<open>sqlite3.Error\<close>, which the handler turns into a message.
  The result is the store and the exception that left the function, if any.
\<close>

definition event_record :: "nat \<Rightarrow> datetime \<Rightarrow> user_inputs \<Rightarrow> session \<Rightarrow> event_row" where
  "event_record i now u s =
     \<lparr>row_id = i, row_title = title u,
      row_start_time = isoformat (start_time u),
      row_end_time = isoformat (end_time u),
      row_location = location u,
      row_facilitators = facilitators u,
      row_description = generated_description s,
      row_fb_image_url = fb_image_url s,
      row_ig_image_url = ig_image_url s,
      row_newsletter_html = newsletter_html s,
      row_created_at = isoformat now\<rparr>"

definition save_event_to_db :: "datetime \<Rightarrow> store \<Rightarrow> session \<Rightarrow> store \<times> py_exn option" where
  "save_event_to_db now st s =
     (let st1 = connect ''events.db'' st
      in (case user_inputs s of
            None \<Rightarrow> (st1, Some AttributeError)
          | Some u \<Rightarrow>
              (case files st1 (realpath st1 ''events.db'') of
                 None \<Rightarrow> (st1, None)
               | Some d \<Rightarrow>
                   (case events d of
                      None \<Rightarrow> (st1, None)
                    | Some t \<Rightarrow>
                        (write_file (realpath st1 ''events.db'')
                           (d\<lparr>events := Some
                                \<lparr>table_rows =
                                   table_rows t @ [event_record (last_id t + 1) now u s],
                                 last_id = last_id t + 1\<rparr>\<rparr>) st1,
                         None)))))"

text \<open>
  \<open>ORDER BY created_at DESC\<close>: the rows by falling \<open>created_at\<close>, rows with equal
  \<open>created_at\<close> in the order of their insertion.
\<close>

definition newest_first :: "event_row list \<Rightarrow> event_row list" where
  "newest_first rows = rev (sort_key row_created_at (rev rows))"

text \<open>
  \<open>view_events_page\<close> connects to the literal path \<open>'events.db'\<close> too and reads the
  whole table.
\<close>

datatype view = Database_error | No_events | Events "event_row list"

definition view_events_page :: "store \<Rightarrow> store \<times> view" where
  "view_events_page st =
     (let st1 = connect ''events.db'' st
      in (st1,
          (case files st1 (realpath st1 ''events.db'') of
             None \<Rightarrow> Database_error
           | Some d \<Rightarrow>
               (case events d of
                  None \<Rightarrow> Database_error
                | Some t \<Rightarrow>
                    (if table_rows t = [] then No_events
                     else Events (newest_first (table_rows t)))))))"

section \<open>One run of the script\<close>

text \<open>
  Streamlit runs the script from the top after every interaction of the user and after
  every \<open>st.rerun()\<close>.  What the widgets return in one run is the \<open>ui\<close> of the run:
  the form's fields and whether it was submitted, the button that was clicked (a button
  returns \<open>True\<close> only in the run its click started), the text the user typed into a
  text area (a text area otherwise returns the value it is given), the page chosen in
  the sidebar, the API key typed there, and the clock.
\<close>

datatype button =
    Approve_Description
  | Regenerate_FB_Image | Approve_FB_Image | Approve_without_FB_Image
  | Regenerate_IG_Image | Approve_IG_Image | Approve_without_IG_Image
  | Approve_Newsletter | Save_Event_to_Database

datatype page = Create_New_Event | View_Past_Events

record ui =
  api_key :: string
  page :: page
  form :: user_inputs
  submitted :: bool
  clicked :: "button option"
  description_edit :: "string option"
  newsletter_edit :: "string option"
  clock :: datetime

definition text_area :: "string option \<Rightarrow> string \<Rightarrow> string" where
  "text_area typed value' = (case typed of None \<Rightarrow> value' | Some t \<Rightarrow> t)"

text \<open>
  How a run ends: at the end of the script or at \<open>st.stop()\<close> (\<open>Done\<close>), at an
  \<open>st.rerun()\<close>, or with an exception that nothing catches.  An outcome is the session
  and the store the run leaves, how it ended, and the requests it sent to the provider.
\<close>

datatype flow = Done | Rerun | Raised py_exn

record outcome =
  sess :: session
  db :: store
  flow :: flow
  calls :: "request list"

definition finish :: "flow \<Rightarrow> store \<Rightarrow> request list \<Rightarrow> session \<Rightarrow> outcome" where
  "finish f st cs s = \<lparr>sess = s, db = st, flow = f, calls = cs\<rparr>"

text \<open>The gate of the final stage (\<open>all_approved\<close>, lines 442 to 446).\<close>

definition all_approved :: "session \<Rightarrow> bool" where
  "all_approved s \<longleftrightarrow>
     description_approved s \<and>
     (\<not> get_flag gen_fb s \<or> fb_image_approved s) \<and>
     (\<not> get_flag gen_ig s \<or> ig_image_approved s) \<and>
     (\<not> get_flag gen_news s \<or> newsletter_approved s)"

text \<open>Final stage: save (lines 441 to 453).\<close>

definition final_stage :: "store \<Rightarrow> ui \<Rightarrow> session \<Rightarrow> outcome" where
  "final_stage st ui s =
     (if stage s = Final \<and> all_approved s then
        (if clicked ui = Some Save_Event_to_Database then
           (case save_event_to_db (clock ui) st s of
              (st1, None) \<Rightarrow> finish Done st1 [] s
            | (st1, Some e) \<Rightarrow> finish (Raised e) st1 [] s)
         else finish Done st [] s)
      else finish Done st [] s)"

text \<open>Newsletter review (lines 425 to 439).\<close>

definition newsletter_review :: "store \<Rightarrow> ui \<Rightarrow> session \<Rightarrow> outcome" where
  "newsletter_review st ui s =
     (if stage s \<in> set [Review_newsletter, Final] then
        (case user_inputs s of
           None \<Rightarrow> finish (Raised KeyError) st [] s
         | Some u \<Rightarrow>
             (if gen_news u then
                (let s1 = s\<lparr>newsletter_html := text_area (newsletter_edit ui) (newsletter_html s)\<rparr>
                 in if \<not> newsletter_approved s1 \<and> clicked ui = Some Approve_Newsletter
                    then finish Rerun st [] (s1\<lparr>newsletter_approved := True, stage := Final\<rparr>)
                    else final_stage st ui s1)
              else final_stage st ui s))
      else final_stage st ui s)"

text \<open>The manual newsletter body of line 417.\<close>

definition manual_newsletter :: "string \<Rightarrow> string \<Rightarrow> string" where
  "manual_newsletter title' description =
     ''<h1>'' @ title' @ ''</h1><p>'' @ replace ''\<newline>'' ''<br>'' description @ ''</p>''"

text \<open>Agent 4: newsletter composer (lines 404 to 422).\<close>

definition newsletter_stage :: "client \<Rightarrow> store \<Rightarrow> ui \<Rightarrow> session \<Rightarrow> outcome" where
  "newsletter_stage c st ui s =
     (if stage s = Generate_newsletter then
        (case user_inputs s of
           None \<Rightarrow> finish (Raised KeyError) st [] s
         | Some u \<Rightarrow>
             (if gen_news u then
                (let header_image = py_or (fb_image_url s) (ig_image_url s)
                 in if truthy header_image then
                      (case run_newsletter_composer_agent c (title u) (generated_description s)
                              header_image s of
                         (s1, cs) \<Rightarrow> finish Rerun st cs (s1\<lparr>stage := Review_newsletter\<rparr>))
                    else
                      finish Rerun st []
                        (s\<lparr>newsletter_html := manual_newsletter (title u) (generated_description s),
                           stage := Review_newsletter\<rparr>))
              else finish Rerun st [] (s\<lparr>stage := Final\<rparr>)))
      else newsletter_review st ui s)"

text \<open>
  Image review (lines 347 to 402).  The three buttons of an image are drawn only when
  the image is requested, its reference is truthy and it is not approved.
\<close>

definition images_review :: "client \<Rightarrow> store \<Rightarrow> ui \<Rightarrow> session \<Rightarrow> outcome" where
  "images_review c st ui s =
     (if stage s \<in> set [Review_images, Generate_newsletter, Review_newsletter, Final]
         \<and> description_approved s then
        (case user_inputs s of
           None \<Rightarrow> finish (Raised KeyError) st [] s
         | Some u \<Rightarrow>
             (let fb_needed = gen_fb u;
                  ig_needed = gen_ig u;
                  all_images_approved =
                    ((\<not> fb_needed \<or> fb_image_approved s) \<and> (\<not> ig_needed \<or> ig_image_approved s));
                  fb_buttons = (fb_needed \<and> truthy (fb_image_url s) \<and> \<not> fb_image_approved s);
                  ig_buttons = (ig_needed \<and> truthy (ig_image_url s) \<and> \<not> ig_image_approved s)
              in if fb_buttons \<and> clicked ui = Some Regenerate_FB_Image then
                   finish Rerun st [] (s\<lparr>fb_image_url := None, stage := Image_Generations\<rparr>)
                 else if fb_buttons \<and> clicked ui = Some Approve_FB_Image then
                   finish Rerun st [] (s\<lparr>fb_image_approved := True\<rparr>)
                 else if fb_buttons \<and> clicked ui = Some Approve_without_FB_Image then
                   finish Rerun st [] (s\<lparr>fb_image_approved := True, fb_image_url := None\<rparr>)
                 else if ig_buttons \<and> clicked ui = Some Regenerate_IG_Image then
                   finish Rerun st [] (s\<lparr>ig_image_url := None, stage := Image_Generations\<rparr>)
                 else if ig_buttons \<and> clicked ui = Some Approve_IG_Image then
                   finish Rerun st [] (s\<lparr>ig_image_approved := True\<rparr>)
                 else if ig_buttons \<and> clicked ui = Some Approve_without_IG_Image then
                   finish Rerun st [] (s\<lparr>ig_image_approved := True, ig_image_url := None\<rparr>)
                 else if all_images_approved \<and> stage s = Review_images then
                   finish Rerun st [] (s\<lparr>stage := Generate_newsletter\<rparr>)
                 else newsletter_stage c st ui s))
      else newsletter_stage c st ui s)"

text \<open>Agents 2 and 3: image designers (lines 327 to 345).\<close>

definition design_facebook :: "client \<Rightarrow> user_inputs \<Rightarrow> session \<Rightarrow> session \<times> request list" where
  "design_facebook c u s =
     (if gen_fb u \<and> \<not> fb_image_approved s then
        (case run_image_designer_agent c (title u) (generated_description s) ''1792x1024''
                ''Facebook Designer'' of
           (image_url, cs) \<Rightarrow> (s\<lparr>fb_image_url := image_url\<rparr>, cs))
      else (s, []))"

definition design_instagram :: "client \<Rightarrow> user_inputs \<Rightarrow> session \<Rightarrow> session \<times> request list" where
  "design_instagram c u s =
     (if gen_ig u \<and> \<not> ig_image_approved s then
        (case run_image_designer_agent c (title u) (generated_description s) ''1024x1024''
                ''Instagram Designer'' of
           (image_url, cs) \<Rightarrow> (s\<lparr>ig_image_url := image_url\<rparr>, cs))
      else (s, []))"

definition images_stage :: "client \<Rightarrow> store \<Rightarrow> ui \<Rightarrow> session \<Rightarrow> outcome" where
  "images_stage c st ui s =
     (if stage s = Image_Generations \<and> description_approved s then
        (case user_inputs s of
           None \<Rightarrow> finish (Raised KeyError) st [] s
         | Some u \<Rightarrow>
             (case design_facebook c u s of
                (s1, cs1) \<Rightarrow>
                  (case design_instagram c u s1 of
                     (s2, cs2) \<Rightarrow> finish Rerun st (cs1 @ cs2) (s2\<lparr>stage := Review_images\<rparr>))))
      else images_review c st ui s)"

text \<open>Description review (lines 314 to 325): the text area persists the user's edits.\<close>

definition description_review :: "client \<Rightarrow> store \<Rightarrow> ui \<Rightarrow> session \<Rightarrow> outcome" where
  "description_review c st ui s =
     (if stage s \<in> set [Review_description, Image_Generations, Review_images,
                         Generate_newsletter, Review_newsletter, Final] then
        (let s1 = s\<lparr>generated_description :=
                      text_area (description_edit ui) (generated_description s)\<rparr>
         in if \<not> description_approved s1 \<and> clicked ui = Some Approve_Description
            then finish Rerun st [] (s1\<lparr>description_approved := True, stage := Image_Generations\<rparr>)
            else images_stage c st ui s1)
      else images_stage c st ui s)"

text \<open>Agent 1: content writer (lines 300 to 312).\<close>

definition description_stage :: "client \<Rightarrow> store \<Rightarrow> ui \<Rightarrow> session \<Rightarrow> outcome" where
  "description_stage c st ui s =
     (if stage s = Generate_description then
        (case user_inputs s of
           None \<Rightarrow> finish (Raised KeyError) st [] s
         | Some u \<Rightarrow>
             (case run_content_writer_agent c (title u) (start_time u) (end_time u) (location u)
                     (facilitators u) (short_desc u) s of
                (s1, cs) \<Rightarrow> finish Rerun st cs (s1\<lparr>stage := Review_description\<rparr>)))
      else description_review c st ui s)"

text \<open>
  The reset of a submission (lines 286 to 290): nine keys are deleted and
  \<open>init_session_state\<close> gives them their defaults again; \<open>user_inputs\<close> stays.
\<close>

definition reset_session :: "session \<Rightarrow> session" where
  "reset_session s = init_session_state\<lparr>user_inputs := user_inputs s\<rparr>"

text \<open>\<open>create_event_page\<close> (lines 250 to 453).\<close>

definition create_event_page :: "client \<Rightarrow> store \<Rightarrow> ui \<Rightarrow> session \<Rightarrow> outcome" where
  "create_event_page c st ui s =
     (if submitted ui then
        finish Rerun st []
          ((reset_session s)\<lparr>user_inputs := Some (form ui), stage := Generate_description\<rparr>)
      else description_stage c st ui s)"

text \<open>
  The script: without an API key it stops at once (line 33); otherwise it initialises
  the database at \<open>DB_FILE\<close> and the session, and shows the chosen page.
\<close>

definition app :: "(string \<rightharpoonup> string) \<Rightarrow> client \<Rightarrow> store \<Rightarrow> ui \<Rightarrow> session \<Rightarrow> outcome" where
  "app env c st ui s =
     (if api_key ui = [] then finish Done st [] s
      else (let st1 = initialize_database (DB_FILE env) st
            in (case page ui of
                  Create_New_Event \<Rightarrow> create_event_page c st1 ui s
                | View_Past_Events \<Rightarrow> finish Done (fst (view_events_page st1)) [] s)))"

section \<open>Runs after runs\<close>

text \<open>
  The run that an \<open>st.rerun()\<close> starts sees no click and no submission, and the text
  areas return what the session holds.
\<close>

definition idle :: "ui \<Rightarrow> ui" where
  "idle ui = ui\<lparr>submitted := False, clicked := None, description_edit := None,
                newsletter_edit := None\<rparr>"

text \<open>The order of the stages.\<close>

fun rank :: "stage \<Rightarrow> nat" where
  "rank Initial = 0"
| "rank Generate_description = 1"
| "rank Review_description = 2"
| "rank Image_Generations = 3"
| "rank Review_images = 4"
| "rank Generate_newsletter = 5"
| "rank Review_newsletter = 6"
| "rank Final = 7"

text \<open>
  The sessions a user can bring about: the initial one, and what any run of the script
  leaves, whatever the widgets return, the provider answers and the store holds.
\<close>

inductive reachable :: "session \<Rightarrow> bool" where
  start: "reachable init_session_state"
| run: "reachable s \<Longrightarrow> reachable (sess (app env c st ui s))"

section \<open>The approval gates as an invariant\<close>

text \<open>
  What every run keeps true: past the initial stage the inputs are stored; from the
  image stage on the description is approved; from the newsletter stage on every
  requested image is approved; in the final stage a requested newsletter is approved.
\<close>

definition gate_inv :: "session \<Rightarrow> bool" where
  "gate_inv s \<longleftrightarrow>
     (stage s \<noteq> Initial \<longrightarrow> user_inputs s \<noteq> None) \<and>
     (3 \<le> rank (stage s) \<longrightarrow> description_approved s) \<and>
     (5 \<le> rank (stage s) \<longrightarrow>
        (\<not> get_flag gen_fb s \<or> fb_image_approved s) \<and> (\<not> get_flag gen_ig s \<or> ig_image_approved s)) \<and>
     (stage s = Final \<longrightarrow> \<not> get_flag gen_news s \<or> newsletter_approved s)"

lemma sess_finish [simp]: "sess (finish f st cs s) = s" "flow (finish f st cs s) = f"
  "calls (finish f st cs s) = cs" "db (finish f st cs s) = st"
  by (simp_all add: finish_def)

lemma sess_final [simp]: "sess (final_stage st ui s) = s"
  by (simp add: final_stage_def split: prod.splits option.splits)

lemma inv_html: "gate_inv s \<Longrightarrow> gate_inv (s\<lparr>newsletter_html := h\<rparr>)"
  by (simp add: gate_inv_def get_flag_def)

lemma inv_desc: "gate_inv s \<Longrightarrow> gate_inv (s\<lparr>generated_description := h\<rparr>)"
  by (simp add: gate_inv_def get_flag_def)

lemma inv_newsletter_review: "gate_inv s \<Longrightarrow> gate_inv (sess (newsletter_review st ui s))"
  by (cases "stage s") (auto simp: newsletter_review_def Let_def gate_inv_def get_flag_def split: option.splits)

lemma inv_newsletter_stage: "gate_inv s \<Longrightarrow> gate_inv (sess (newsletter_stage c st ui s))"
  unfolding newsletter_stage_def Let_def run_newsletter_composer_agent_def
  apply (simp add: inv_newsletter_review split: option.splits sum.splits)
  apply (auto simp: gate_inv_def get_flag_def)
  done


lemma inv_urls:
  "gate_inv s \<Longrightarrow> gate_inv (s\<lparr>fb_image_url := x\<rparr>)"
  "gate_inv s \<Longrightarrow> gate_inv (s\<lparr>ig_image_url := x\<rparr>)"
  by (simp_all add: gate_inv_def get_flag_def)

lemma inv_approve_image:
  "gate_inv s \<Longrightarrow> gate_inv (s\<lparr>fb_image_approved := True\<rparr>)"
  "gate_inv s \<Longrightarrow> gate_inv (s\<lparr>ig_image_approved := True\<rparr>)"
  by (simp_all add: gate_inv_def get_flag_def)

lemma inv_back_to_images:
  "gate_inv s \<Longrightarrow> description_approved s \<Longrightarrow> user_inputs s = Some u \<Longrightarrow>
     gate_inv (s\<lparr>stage := Image_Generations\<rparr>)"
  "gate_inv s \<Longrightarrow> description_approved s \<Longrightarrow> user_inputs s = Some u \<Longrightarrow>
     gate_inv (s\<lparr>stage := Review_images\<rparr>)"
  by (simp_all add: gate_inv_def get_flag_def)

lemma inv_to_newsletter:
  "gate_inv s \<Longrightarrow> description_approved s \<Longrightarrow> user_inputs s = Some u \<Longrightarrow>
   \<not> gen_fb u \<or> fb_image_approved s \<Longrightarrow> \<not> gen_ig u \<or> ig_image_approved s \<Longrightarrow>
     gate_inv (s\<lparr>stage := Generate_newsletter\<rparr>)"
  by (simp add: gate_inv_def get_flag_def)

lemma inv_images_review: "gate_inv s \<Longrightarrow> gate_inv (sess (images_review c st ui s))"
  unfolding images_review_def Let_def
  by (simp add: inv_newsletter_stage inv_urls inv_approve_image inv_back_to_images
        inv_to_newsletter split: option.splits)

lemma inv_design_facebook: "gate_inv s \<Longrightarrow> gate_inv (fst (design_facebook c u s))"
  by (simp add: design_facebook_def run_image_designer_agent_def inv_urls)

lemma inv_design_instagram: "gate_inv s \<Longrightarrow> gate_inv (fst (design_instagram c u s))"
  by (simp add: design_instagram_def run_image_designer_agent_def inv_urls)

lemma design_facebook_frame:
  "stage (fst (design_facebook c u s)) = stage s"
  "description_approved (fst (design_facebook c u s)) = description_approved s"
  "user_inputs (fst (design_facebook c u s)) = user_inputs s"
  by (simp_all add: design_facebook_def run_image_designer_agent_def)

lemma design_instagram_frame:
  "stage (fst (design_instagram c u s)) = stage s"
  "description_approved (fst (design_instagram c u s)) = description_approved s"
  "user_inputs (fst (design_instagram c u s)) = user_inputs s"
  by (simp_all add: design_instagram_def run_image_designer_agent_def)

lemma images_stage_alt:
  "images_stage c st ui s =
     (if stage s = Image_Generations \<and> description_approved s then
        (case user_inputs s of
           None \<Rightarrow> finish (Raised KeyError) st [] s
         | Some u \<Rightarrow>
             finish Rerun st
               (snd (design_facebook c u s) @ snd (design_instagram c u (fst (design_facebook c u s))))
               ((fst (design_instagram c u (fst (design_facebook c u s))))\<lparr>stage := Review_images\<rparr>))
      else images_review c st ui s)"
  by (simp add: images_stage_def split: prod.splits option.splits)

lemma inv_images_stage: "gate_inv s \<Longrightarrow> gate_inv (sess (images_stage c st ui s))"
  unfolding images_stage_alt
  by (simp add: inv_images_review inv_back_to_images inv_design_facebook inv_design_instagram
        design_facebook_frame design_instagram_frame split: option.splits)

lemma inv_approve_description:
  "gate_inv s \<Longrightarrow> stage s \<noteq> Initial \<Longrightarrow>
     gate_inv (s\<lparr>description_approved := True, stage := Image_Generations\<rparr>)"
  by (simp add: gate_inv_def get_flag_def)

lemma inv_description_review: "gate_inv s \<Longrightarrow> gate_inv (sess (description_review c st ui s))"
  unfolding description_review_def Let_def
  by (auto simp: inv_images_stage inv_desc intro!: inv_approve_description)

lemma inv_review_description:
  "gate_inv s \<Longrightarrow> stage s = Generate_description \<Longrightarrow>
     gate_inv (s\<lparr>stage := Review_description\<rparr>) \<and>
     gate_inv (s\<lparr>generated_description := d, stage := Review_description\<rparr>)"
  by (simp add: gate_inv_def get_flag_def)

lemma inv_description_stage: "gate_inv s \<Longrightarrow> gate_inv (sess (description_stage c st ui s))"
  unfolding description_stage_def run_content_writer_agent_def
  by (simp add: inv_description_review inv_review_description split: option.splits sum.splits)

lemma inv_create_event_page: "gate_inv s \<Longrightarrow> gate_inv (sess (create_event_page c st ui s))"
  unfolding create_event_page_def
  by (simp add: inv_description_stage)
     (simp add: gate_inv_def get_flag_def reset_session_def init_session_state_def)

lemma inv_app: "gate_inv s \<Longrightarrow> gate_inv (sess (app env c st ui s))"
  by (simp add: app_def Let_def inv_create_event_page split: page.splits)

lemma reachable_gate_inv: "reachable s \<Longrightarrow> gate_inv s"
  by (induction rule: reachable.induct)
     (simp_all add: inv_app, simp add: gate_inv_def init_session_state_def)

section \<open>Reruns come to an end\<close>

text \<open>The outcome of a run that follows an earlier one: the requests add up.\<close>

definition then_run :: "outcome \<Rightarrow> outcome \<Rightarrow> outcome" where
  "then_run r r' = r'\<lparr>calls := calls r @ calls r'\<rparr>"

text \<open>
  A run that sees no click and no submission and ends in \<open>st.rerun()\<close> has moved the
  stage forward; so the reruns that follow an interaction come to an end.
\<close>

definition advances :: "nat \<Rightarrow> outcome \<Rightarrow> bool" where
  "advances k r \<longleftrightarrow> (flow r = Rerun \<longrightarrow> k < rank (stage (sess r)))"

lemma advances_finish [simp]:
  "advances k (finish f st cs s) \<longleftrightarrow> (f = Rerun \<longrightarrow> k < rank (stage s))"
  by (simp add: advances_def)

lemma advances_final: "advances k (final_stage st ui s)"
  by (simp add: final_stage_def split: prod.splits option.splits)

lemma advances_newsletter_review:
  "clicked ui = None \<Longrightarrow> advances k (newsletter_review st ui s)"
  by (simp add: newsletter_review_def Let_def advances_final split: option.splits)

lemma advances_newsletter_stage:
  "clicked ui = None \<Longrightarrow> advances (rank (stage s)) (newsletter_stage c st ui s)"
  by (simp add: newsletter_stage_def Let_def advances_newsletter_review
        run_newsletter_composer_agent_def split: option.splits)

lemma advances_images_review:
  "clicked ui = None \<Longrightarrow> advances (rank (stage s)) (images_review c st ui s)"
  by (simp add: images_review_def Let_def advances_newsletter_stage split: option.splits)

lemma advances_images_stage:
  "clicked ui = None \<Longrightarrow> advances (rank (stage s)) (images_stage c st ui s)"
  by (simp add: images_stage_alt advances_images_review split: option.splits)

lemma advances_description_review:
  "clicked ui = None \<Longrightarrow> advances (rank (stage s)) (description_review c st ui s)"
  using advances_images_stage [of ui "s\<lparr>generated_description :=
          text_area (description_edit ui) (generated_description s)\<rparr>" c st]
  by (simp add: description_review_def Let_def advances_images_stage)

lemma advances_description_stage:
  "clicked ui = None \<Longrightarrow> advances (rank (stage s)) (description_stage c st ui s)"
  by (simp add: description_stage_def advances_description_review run_content_writer_agent_def
        split: option.splits)

lemma advance_app:
  "flow (app env c st (idle ui) s) = Rerun \<Longrightarrow>
     rank (stage s) < rank (stage (sess (app env c st (idle ui) s)))"
  using advances_description_stage [of "idle ui" s c "initialize_database (DB_FILE env) st"]
  by (simp add: app_def Let_def create_event_page_def idle_def advances_def
        split: if_splits page.splits)

lemma rank_le: "rank x \<le> 7"
  by (cases x) simp_all

text \<open>
  \<open>settle\<close> lets the script rerun for as long as it asks to; \<open>interact\<close> is one
  interaction of the user with the reruns it causes.
\<close>

function settle :: "(string \<rightharpoonup> string) \<Rightarrow> client \<Rightarrow> ui \<Rightarrow> outcome \<Rightarrow> outcome" where
  "settle env c ui r =
     (if flow r = Rerun then settle env c ui (then_run r (app env c (db r) (idle ui) (sess r)))
      else r)"
  by pat_completeness auto
termination
proof (relation "measure (\<lambda>(env, c, ui, r). if flow r = Rerun then 9 - rank (stage (sess r)) else 0)")
  show "wf (measure (\<lambda>(env, c, ui, r). if flow r = Rerun then 9 - rank (stage (sess r)) else 0))"
    by simp
next
  fix env :: "string \<rightharpoonup> string" and c :: client and ui :: ui and r :: outcome
  assume r: "flow r = Rerun"
  let ?r' = "app env c (db r) (idle ui) (sess r)"
  have "rank (stage (sess r)) \<le> 7" "rank (stage (sess ?r')) \<le> 7" by (rule rank_le)+
  moreover have "flow ?r' = Rerun \<Longrightarrow> rank (stage (sess r)) < rank (stage (sess ?r'))"
    by (rule advance_app)
  ultimately show "((env, c, ui, then_run r ?r'), (env, c, ui, r))
      \<in> measure (\<lambda>(env, c, ui, r). if flow r = Rerun then 9 - rank (stage (sess r)) else 0)"
    using r by (auto simp: then_run_def)
qed

declare settle.simps [simp del]

definition interact :: "(string \<rightharpoonup> string) \<Rightarrow> client \<Rightarrow> ui \<Rightarrow> outcome \<Rightarrow> outcome" where
  "interact env c ui r = settle env c ui (then_run r (app env c (db r) ui (sess r)))"

text \<open>Runs one after the other, each with the widget values given, over one store.\<close>

fun replay :: "(string \<rightharpoonup> string) \<Rightarrow> client \<Rightarrow> store \<Rightarrow> ui list \<Rightarrow> session \<Rightarrow> session" where
  "replay env c st [] s = s"
| "replay env c st (ui # uis) s = replay env c st uis (sess (app env c st ui s))"

text \<open>A new session over a store.\<close>

definition fresh :: "store \<Rightarrow> outcome" where
  "fresh st = finish Done st [] init_session_state"

lemma sess_then_run [simp]:
  "sess (then_run r r') = sess r'" "db (then_run r r') = db r'" "flow (then_run r r') = flow r'"
  "calls (then_run r r') = calls r @ calls r'"
  by (simp_all add: then_run_def)

lemma reachable_settle: "reachable (sess r) \<Longrightarrow> reachable (sess (settle env c ui r))"
proof (induction env c ui r rule: settle.induct)
  case (1 env c ui r)
  show ?case
  proof (cases "flow r = Rerun")
    case True
    have "reachable (sess (then_run r (app env c (db r) (idle ui) (sess r))))"
      using "1.prems" by (simp add: reachable.run)
    from "1.IH" [OF True this] True show ?thesis
      by (subst settle.simps) simp
  next
    case False
    with "1.prems" show ?thesis by (subst settle.simps) simp
  qed
qed

lemma reachable_interact: "reachable (sess r) \<Longrightarrow> reachable (sess (interact env c ui r))"
  by (simp add: interact_def reachable_settle reachable.run)

lemma reachable_replay: "reachable s \<Longrightarrow> reachable (replay env c st uis s)"
  by (induction uis arbitrary: s) (simp_all add: reachable.run)

lemma reachable_fresh: "reachable (sess (fresh st))"
  by (simp add: fresh_def reachable.start)

section \<open>Example sessions\<close>

text \<open>
  The scenario of the specification (title \<open>Sunrise Yoga\<close>, facilitator \<open>Ana\<close>, no
  optional artifact requested), a variant that requests all three artifacts, a provider
  that answers, and one that is down.
\<close>

definition sunrise_yoga :: user_inputs where
  "sunrise_yoga =
     \<lparr>title = ''Sunrise Yoga'',
      start_time = \<lparr>year = 2026, month = 11, day = 4, hour = 7, minute = 0, second = 0,
                    microsecond = 0\<rparr>,
      end_time = \<lparr>year = 2026, month = 11, day = 4, hour = 8, minute = 30, second = 0,
                  microsecond = 0\<rparr>,
      location = ''Sofia'', facilitators = ''Ana'', short_desc = [],
      gen_fb = False, gen_ig = False, gen_news = False\<rparr>"

definition all_three :: user_inputs where
  "all_three = sunrise_yoga\<lparr>gen_fb := True, gen_ig := True, gen_news := True\<rparr>"

definition visitor :: "user_inputs \<Rightarrow> ui" where
  "visitor f =
     \<lparr>api_key = ''sk-test'', page = Create_New_Event, form = f, submitted = False,
      clicked = None, description_edit = None, newsletter_edit = None,
      clock = \<lparr>year = 2026, month = 11, day = 4, hour = 6, minute = 0, second = 0,
               microsecond = 0\<rparr>\<rparr>"

definition submit :: "ui \<Rightarrow> ui" where
  "submit ui = ui\<lparr>submitted := True\<rparr>"

definition click :: "button \<Rightarrow> ui \<Rightarrow> ui" where
  "click b ui = ui\<lparr>clicked := Some b\<rparr>"

text \<open>A file system with no database file, in which every path names a file of its own.\<close>

definition empty_disk :: store where
  "empty_disk = \<lparr>realpath = (\<lambda>path. path), files = Map.empty\<rparr>"

definition news_only :: user_inputs where
  "news_only = sunrise_yoga\<lparr>gen_news := True\<rparr>"

definition studio :: client where
  "studio req =
     (case req of
        Chat_create m sys usr \<Rightarrow>
          (if sys = ''You are an expert email marketer specializing in HTML emails.''
           then Inr [Some ''```html\<newline><h1>Sunrise Yoga</h1>\<newline>```'']
           else Inr [Some ''Greet the day on the mat.''])
      | Images_generate m p k sz q \<Rightarrow> Inr [Some (''https://img.example/'' @ sz)])"

definition offline :: client where
  "offline req = Inl APIError"

text \<open>A provider that wraps its answer in a fence without the \<open>html\<close> tag.\<close>

definition bare_fence :: client where
  "bare_fence req = Inr [Some ''```\<newline><p>Namaste</p>\<newline>```'']"

text \<open>
  A provider whose one choice carries no text (\<open>message.content\<close> is \<open>None\<close>), and
  one whose choice carries the empty text.
\<close>

definition mute :: client where
  "mute req = Inr [None]"

definition blank :: client where
  "blank req = Inr [Some []]"

text \<open>
  An environment that configures another database file, and the session of the
  specification's scenario when every gate is passed.
\<close>

definition custom_env :: "string \<rightharpoonup> string" where
  "custom_env = [''DB_FILE'' \<mapsto> ''custom.db'']"

definition finished :: session where
  "finished =
     replay Map.empty offline empty_disk
       [submit (visitor sunrise_yoga), visitor sunrise_yoga,
        click Approve_Description (visitor sunrise_yoga), visitor sunrise_yoga,
        visitor sunrise_yoga, visitor sunrise_yoga] init_session_state"

text \<open>
  The file system after a first run of the script under the default configuration
  (\<open>events.db\<close> holds the empty table), and the record of the scenario's event as a
  save at six o'clock writes it.
\<close>

definition used_disk :: store where
  "used_disk = db (app Map.empty offline empty_disk (visitor sunrise_yoga) init_session_state)"

definition yoga_row :: event_row where
  "yoga_row =
     \<lparr>row_id = 1, row_title = ''Sunrise Yoga'',
      row_start_time = ''2026-11-04T07:00:00'',
      row_end_time = ''2026-11-04T08:30:00'',
      row_location = ''Sofia'', row_facilitators = ''Ana'',
      row_description = [], row_fb_image_url = None, row_ig_image_url = None,
      row_newsletter_html = [], row_created_at = ''2026-11-04T06:00:00''\<rparr>"

text \<open>
  An environment that configures the database by the path \<open>./events.db\<close>, and a file
  system with no database file in which that path names the file \<open>events.db\<close>, as it
  does in every working directory.
\<close>

definition dot_env :: "string \<rightharpoonup> string" where
  "dot_env = [''DB_FILE'' \<mapsto> ''./events.db'']"

definition aliased_disk :: store where
  "aliased_disk =
     \<lparr>realpath = (\<lambda>path. if path = ''./events.db'' then ''events.db'' else path),
      files = Map.empty\<rparr>"

text \<open>
  A session that only asks for the newsletter, as it stands when the script is about to
  compose it: submitted, described, the description approved, and two reruns later.
\<close>

definition composing :: session where
  "composing =
     replay Map.empty studio empty_disk
       [submit (visitor news_only), visitor news_only,
        click Approve_Description (visitor news_only), visitor news_only, visitor news_only]
       init_session_state"

text \<open>
  The session that asks for all three artifacts: right after the submission, when the
  images are about to be designed, when both images are shown for review, and when
  both are approved and the newsletter is about to be composed.
\<close>

definition drafting :: session where
  "drafting = replay Map.empty studio empty_disk [submit (visitor all_three)] init_session_state"

definition designing :: session where
  "designing =
     replay Map.empty studio empty_disk
       [visitor all_three, click Approve_Description (visitor all_three)] drafting"

definition reviewing :: session where
  "reviewing = replay Map.empty studio empty_disk [visitor all_three] designing"

definition illustrated :: session where
  "illustrated =
     replay Map.empty studio empty_disk
       [click Approve_FB_Image (visitor all_three), click Approve_IG_Image (visitor all_three),
        visitor all_three] reviewing"

text \<open>The same session with the newsletter composed and approved.\<close>

definition published :: session where
  "published =
     replay Map.empty studio empty_disk
       [visitor all_three, click Approve_Newsletter (visitor all_three)] illustrated"

text \<open>A visitor who has typed a description of 600 characters into the text area.\<close>

definition wordy :: ui where
  "wordy = (visitor all_three)\<lparr>description_edit := Some (replicate 600 (CHR ''a''))\<rparr>"

text \<open>
  A second provider, whose images are told apart from the first one's; the session in
  which the instagram image alone is approved; and the session after the facebook image
  of \<open>reviewing\<close> is sent back for regeneration.
\<close>

definition atelier :: client where
  "atelier req =
     (case req of
        Chat_create m sys usr \<Rightarrow> Inl RateLimitError
      | Images_generate m p k sz q \<Rightarrow> Inr [Some (''https://atelier.example/'' @ sz)])"

definition regenerating :: session where
  "regenerating =
     sess (create_event_page atelier empty_disk (click Regenerate_FB_Image (visitor all_three))
             reviewing)"

definition half_approved :: session where
  "half_approved =
     replay Map.empty studio empty_disk [click Approve_IG_Image (visitor all_three)] reviewing"

lemmas run_defs = app_def create_event_page_def description_stage_def description_review_def
  images_stage_def images_review_def newsletter_stage_def newsletter_review_def final_stage_def
  design_facebook_def design_instagram_def run_content_writer_agent_def
  run_image_designer_agent_def run_newsletter_composer_agent_def format_description_def
  compose_newsletter_def reset_session_def init_session_state_def finish_def then_run_def
  idle_def text_area_def all_approved_def get_flag_def interact_def fresh_def
  initialize_database_def connect_def write_file_def DB_FILE_def Let_def

lemmas example_defs = sunrise_yoga_def all_three_def news_only_def visitor_def submit_def
  click_def studio_def offline_def empty_disk_def

lemmas request_defs = content_writer_request_def image_request_def newsletter_request_def item_def

lemmas time_defs = directive_def day_name_def weekday_def toordinal_def days_before_year_def
  days_before_month_def is_leap_def month_name_def zpad_def digits.simps digit_def

section \<open>How a run passes through the blocks of the script\<close>

lemma images_review_passes:
  assumes "5 \<le> rank (stage s)" and "user_inputs s = Some u"
    and "\<not> gen_fb u \<or> fb_image_approved s" and "\<not> gen_ig u \<or> ig_image_approved s"
  shows "images_review c st ui s = newsletter_stage c st ui s"
proof -
  from assms(1) have "stage s \<noteq> Review_images" by auto
  with assms(2-4) show ?thesis
    by (auto simp: images_review_def Let_def)
qed

lemma past_description:
  assumes "3 \<le> rank (stage s)" and "description_approved s" and "\<not> submitted ui"
  shows "create_event_page c st ui s =
           images_stage c st ui
             (s\<lparr>generated_description := text_area (description_edit ui) (generated_description s)\<rparr>)"
proof -
  from assms(1) have "stage s \<noteq> Generate_description" "stage s \<noteq> Initial"
     "stage s \<noteq> Review_description" by auto
  then have "stage s \<in> set [Review_description, Image_Generations, Review_images,
                         Generate_newsletter, Review_newsletter, Final]"
    by (cases "stage s") simp_all
  with assms(2,3) \<open>stage s \<noteq> Generate_description\<close> show ?thesis
    by (simp add: create_event_page_def description_stage_def description_review_def Let_def)
qed

lemma past_images:
  assumes "5 \<le> rank (stage s)" and "description_approved s" and "\<not> submitted ui"
    and "user_inputs s = Some u"
    and "\<not> gen_fb u \<or> fb_image_approved s" and "\<not> gen_ig u \<or> ig_image_approved s"
  shows "create_event_page c st ui s =
           newsletter_stage c st ui
             (s\<lparr>generated_description := text_area (description_edit ui) (generated_description s)\<rparr>)"
proof -
  let ?s = "s\<lparr>generated_description := text_area (description_edit ui) (generated_description s)\<rparr>"
  from assms(1) have "3 \<le> rank (stage s)" by simp
  from past_description [OF this assms(2,3)]
  have "create_event_page c st ui s = images_stage c st ui ?s" .
  also from assms(1) have "stage ?s \<noteq> Image_Generations" by auto
  then have "images_stage c st ui ?s = images_review c st ui ?s"
    by (simp add: images_stage_def)
  also have "images_review c st ui ?s = newsletter_stage c st ui ?s"
    by (rule images_review_passes [where u = u]) (use assms in simp_all)
  finally show ?thesis .
qed

lemma reachable_past_images:
  assumes "reachable s" and "5 \<le> rank (stage s)" and "user_inputs s = Some u"
  shows "description_approved s" and "\<not> gen_fb u \<or> fb_image_approved s"
    and "\<not> gen_ig u \<or> ig_image_approved s"
  using reachable_gate_inv [OF assms(1)] assms(2,3)
  by (simp_all add: gate_inv_def get_flag_def)

text \<open>The session after the description text area has stored what it returns.\<close>

abbreviation edited :: "ui \<Rightarrow> session \<Rightarrow> session" where
  "edited ui s \<equiv>
     s\<lparr>generated_description := text_area (description_edit ui) (generated_description s)\<rparr>"

lemma run_initial:
  assumes "stage s = Initial" and "\<not> submitted ui"
  shows "create_event_page c st ui s = finish Done st [] s"
  using assms
  by (simp add: create_event_page_def description_stage_def description_review_def
        images_stage_def images_review_def newsletter_stage_def newsletter_review_def
        final_stage_def)

lemma run_generate_description:
  assumes "stage s = Generate_description" and "user_inputs s = Some u" and "\<not> submitted ui"
  shows "create_event_page c st ui s =
           finish Rerun st [content_writer_request (title u) (facilitators u) (short_desc u)]
             ((case format_description c (title u) (start_time u) (end_time u) (location u)
                      (facilitators u) (short_desc u) of
                 Inr formatted_description \<Rightarrow> s\<lparr>generated_description := formatted_description\<rparr>
               | Inl e \<Rightarrow> s)\<lparr>stage := Review_description\<rparr>)"
  using assms
  by (simp add: create_event_page_def description_stage_def run_content_writer_agent_def)

lemma run_review_description:
  assumes "stage s = Review_description" and "\<not> submitted ui"
  shows "create_event_page c st ui s =
           (if \<not> description_approved s \<and> clicked ui = Some Approve_Description
            then finish Rerun st []
                   ((edited ui s)\<lparr>description_approved := True, stage := Image_Generations\<rparr>)
            else finish Done st [] (edited ui s))"
  using assms
  by (simp add: create_event_page_def description_stage_def description_review_def Let_def
        images_stage_def images_review_def newsletter_stage_def newsletter_review_def
        final_stage_def)

lemma run_image_generations:
  assumes "stage s = Image_Generations" and "description_approved s"
    and "user_inputs s = Some u" and "\<not> submitted ui"
  shows "create_event_page c st ui s =
           finish Rerun st
             (snd (design_facebook c u (edited ui s))
                @ snd (design_instagram c u (fst (design_facebook c u (edited ui s)))))
             ((fst (design_instagram c u (fst (design_facebook c u (edited ui s)))))
                \<lparr>stage := Review_images\<rparr>)"
proof -
  from assms(1) have "3 \<le> rank (stage s)" by simp
  from past_description [OF this assms(2,4)] assms(1-3) show ?thesis
    by (simp add: images_stage_alt)
qed

lemma run_review_images:
  assumes "stage s = Review_images" and "description_approved s"
    and "user_inputs s = Some u" and "\<not> submitted ui"
  shows "create_event_page c st ui s =
     (let s1 = edited ui s;
          fb_buttons = (gen_fb u \<and> truthy (fb_image_url s) \<and> \<not> fb_image_approved s);
          ig_buttons = (gen_ig u \<and> truthy (ig_image_url s) \<and> \<not> ig_image_approved s)
      in if fb_buttons \<and> clicked ui = Some Regenerate_FB_Image then
           finish Rerun st [] (s1\<lparr>fb_image_url := None, stage := Image_Generations\<rparr>)
         else if fb_buttons \<and> clicked ui = Some Approve_FB_Image then
           finish Rerun st [] (s1\<lparr>fb_image_approved := True\<rparr>)
         else if fb_buttons \<and> clicked ui = Some Approve_without_FB_Image then
           finish Rerun st [] (s1\<lparr>fb_image_approved := True, fb_image_url := None\<rparr>)
         else if ig_buttons \<and> clicked ui = Some Regenerate_IG_Image then
           finish Rerun st [] (s1\<lparr>ig_image_url := None, stage := Image_Generations\<rparr>)
         else if ig_buttons \<and> clicked ui = Some Approve_IG_Image then
           finish Rerun st [] (s1\<lparr>ig_image_approved := True\<rparr>)
         else if ig_buttons \<and> clicked ui = Some Approve_without_IG_Image then
           finish Rerun st [] (s1\<lparr>ig_image_approved := True, ig_image_url := None\<rparr>)
         else if (\<not> gen_fb u \<or> fb_image_approved s) \<and> (\<not> gen_ig u \<or> ig_image_approved s) then
           finish Rerun st [] (s1\<lparr>stage := Generate_newsletter\<rparr>)
         else finish Done st [] s1)"
proof -
  from assms(1) have "3 \<le> rank (stage s)" by simp
  from past_description [OF this assms(2,4)]
  have a: "create_event_page c st ui s = images_review c st ui (edited ui s)"
    using assms(1) by (simp add: images_stage_def)
  have n: "newsletter_stage c st ui (edited ui s) = finish Done st [] (edited ui s)"
    using assms(1) by (simp add: newsletter_stage_def newsletter_review_def final_stage_def)
  show ?thesis
    unfolding a using assms(1-3) by (simp add: images_review_def Let_def n)
qed

lemma run_generate_newsletter:
  assumes "reachable s" and "stage s = Generate_newsletter" and "user_inputs s = Some u"
    and "\<not> submitted ui"
  shows "create_event_page c st ui s =
     (if gen_news u then
        (if truthy (py_or (fb_image_url s) (ig_image_url s)) then
           finish Rerun st
             [newsletter_request (title u) (text_area (description_edit ui) (generated_description s))
                (py_or (fb_image_url s) (ig_image_url s))]
             ((case compose_newsletter c (title u)
                      (text_area (description_edit ui) (generated_description s))
                      (py_or (fb_image_url s) (ig_image_url s)) of
                 Inr html \<Rightarrow> (edited ui s)\<lparr>newsletter_html := html\<rparr>
               | Inl e \<Rightarrow> edited ui s)\<lparr>stage := Review_newsletter\<rparr>)
         else
           finish Rerun st []
             ((edited ui s)\<lparr>newsletter_html :=
                 manual_newsletter (title u)
                   (text_area (description_edit ui) (generated_description s)),
               stage := Review_newsletter\<rparr>))
      else finish Rerun st [] ((edited ui s)\<lparr>stage := Final\<rparr>))"
proof -
  from assms(2) have r: "5 \<le> rank (stage s)" by simp
  note a = reachable_past_images [OF assms(1) r assms(3)]
  have "create_event_page c st ui s = newsletter_stage c st ui (edited ui s)"
    by (rule past_images [OF r a(1) assms(4) assms(3) a(2) a(3)])
  with assms(2,3) show ?thesis
    by (simp add: newsletter_stage_def Let_def run_newsletter_composer_agent_def)
qed

lemma run_after_newsletter:
  assumes "reachable s" and "6 \<le> rank (stage s)" and "user_inputs s = Some u"
    and "\<not> submitted ui"
  shows "create_event_page c st ui s = newsletter_review st ui (edited ui s)"
proof -
  from assms(2) have r: "5 \<le> rank (stage s)" by simp
  note a = reachable_past_images [OF assms(1) r assms(3)]
  have "create_event_page c st ui s = newsletter_stage c st ui (edited ui s)"
    by (rule past_images [OF r a(1) assms(4) assms(3) a(2) a(3)])
  moreover from assms(2) have "stage s \<noteq> Generate_newsletter" by auto
  ultimately show ?thesis by (simp add: newsletter_stage_def)
qed

lemma reachable_inputs:
  assumes "reachable s" and "stage s \<noteq> Initial"
  obtains u where "user_inputs s = Some u"
  using reachable_gate_inv [OF assms(1)] assms(2) by (auto simp: gate_inv_def)

lemma reachable_description_approved:
  "reachable s \<Longrightarrow> 3 \<le> rank (stage s) \<Longrightarrow> description_approved s"
  using reachable_gate_inv [of s] by (simp add: gate_inv_def)

lemma stage_newsletter_review:
  "stage (sess (newsletter_review st ui s)) = stage s \<or>
   stage (sess (newsletter_review st ui s)) = Final"
  by (simp add: newsletter_review_def Let_def split: option.splits)

text \<open>The stage moves along the edges of the wizard only.\<close>

definition edge :: "stage \<Rightarrow> stage \<Rightarrow> bool" where
  "edge a b \<longleftrightarrow>
     (case a of
        Initial \<Rightarrow> b = Initial
      | Generate_description \<Rightarrow> b = Review_description
      | Review_description \<Rightarrow> b = Review_description \<or> b = Image_Generations
      | Image_Generations \<Rightarrow> b = Review_images
      | Review_images \<Rightarrow> b = Review_images \<or> b = Image_Generations \<or> b = Generate_newsletter
      | Generate_newsletter \<Rightarrow> b = Review_newsletter \<or> b = Final
      | Review_newsletter \<Rightarrow> b = Review_newsletter \<or> b = Final
      | Final \<Rightarrow> b = Final)"

lemma stage_edges:
  assumes "reachable s" and "\<not> submitted ui"
  shows "edge (stage s) (stage (sess (create_event_page c st ui s)))"
proof (cases "stage s")
  case Initial
  with assms(2) show ?thesis by (simp add: run_initial edge_def)
next
  case Generate_description
  then obtain u where "user_inputs s = Some u"
    using assms(1) by (auto elim: reachable_inputs)
  with Generate_description assms(2) show ?thesis
    by (simp add: run_generate_description edge_def)
next
  case Review_description
  with assms(2) show ?thesis by (simp add: run_review_description edge_def)
next
  case Image_Generations
  then obtain u where "user_inputs s = Some u"
    using assms(1) by (auto elim: reachable_inputs)
  moreover from Image_Generations have "description_approved s"
    using assms(1) by (simp add: reachable_description_approved)
  ultimately show ?thesis using Image_Generations assms(2)
    by (simp add: run_image_generations edge_def)
next
  case Review_images
  then obtain u where "user_inputs s = Some u"
    using assms(1) by (auto elim: reachable_inputs)
  moreover from Review_images have "description_approved s"
    using assms(1) by (simp add: reachable_description_approved)
  ultimately show ?thesis using Review_images assms(2)
    by (simp add: run_review_images edge_def Let_def)
next
  case Generate_newsletter
  then obtain u where "user_inputs s = Some u"
    using assms(1) by (auto elim: reachable_inputs)
  with Generate_newsletter assms show ?thesis
    by (simp add: run_generate_newsletter edge_def)
next
  case Review_newsletter
  then obtain u where "user_inputs s = Some u"
    using assms(1) by (auto elim: reachable_inputs)
  with Review_newsletter assms
  have "create_event_page c st ui s = newsletter_review st ui (edited ui s)"
    by (simp add: run_after_newsletter)
  with stage_newsletter_review [of st ui "edited ui s"] Review_newsletter show ?thesis
    by (auto simp: edge_def)
next
  case Final
  then obtain u where "user_inputs s = Some u"
    using assms(1) by (auto elim: reachable_inputs)
  with Final assms
  have "create_event_page c st ui s = newsletter_review st ui (edited ui s)"
    by (simp add: run_after_newsletter)
  with stage_newsletter_review [of st ui "edited ui s"] Final show ?thesis
    by (auto simp: edge_def)
qed

lemma sess_app:
  "sess (app env c st ui s) = s \<or>
   sess (app env c st ui s) = sess (create_event_page c (initialize_database (DB_FILE env) st) ui s)"
  by (simp add: app_def Let_def split: page.splits)

text \<open>A session about to draft the description is as the submission left it.\<close>

lemma reachable_drafting:
  "reachable s \<Longrightarrow> stage s = Generate_description \<Longrightarrow>
     generated_description s = [] \<and> \<not> description_approved s \<and> newsletter_html s = []"
proof (induction rule: reachable.induct)
  case start
  then show ?case by (simp add: init_session_state_def)
next
  case (run s env c st ui)
  let ?st = "initialize_database (DB_FILE env) st"
  from sess_app [of env c st ui s] show ?case
  proof
    assume "sess (app env c st ui s) = s"
    with run show ?thesis by simp
  next
    assume a: "sess (app env c st ui s) = sess (create_event_page c ?st ui s)"
    show ?thesis
    proof (cases "submitted ui")
      case True
      then show ?thesis
        by (simp add: a create_event_page_def reset_session_def init_session_state_def)
    next
      case False
      from stage_edges [OF run.hyps False, of c ?st] run.prems a
      have "edge (stage s) Generate_description" by simp
      then show ?thesis by (simp add: edge_def split: stage.splits)
    qed
  qed
qed

lemma newsletter_request_header:
  "newsletter_request t d a = newsletter_request t d b \<longleftrightarrow> fstr a = fstr b"
  by (simp add: newsletter_request_def newsletter_prompt_def)

lemma calls_final_stage [simp]: "calls (final_stage st ui s) = []"
  by (simp add: final_stage_def split: prod.splits option.splits)

lemma calls_newsletter_review [simp]: "calls (newsletter_review st ui s) = []"
  by (simp add: newsletter_review_def Let_def split: option.splits)

lemma image_calls_only_when_designing:
  assumes "reachable s" and "Images_generate m p k sz q \<in> set (calls (create_event_page c st ui s))"
  shows "stage s = Image_Generations \<and> \<not> submitted ui"
proof (cases "submitted ui")
  case True
  with assms(2) show ?thesis by (simp add: create_event_page_def)
next
  case False
  show ?thesis
  proof (cases "stage s = Initial")
    case True
    with False assms(2) show ?thesis by (simp add: run_initial)
  next
    case ni: False
    with assms(1) obtain u where u: "user_inputs s = Some u" by (auto elim: reachable_inputs)
    show ?thesis
    proof (cases "stage s")
      case Initial
      with ni show ?thesis by simp
    next
      case Generate_description
      with False u assms(2) show ?thesis
        by (simp add: run_generate_description content_writer_request_def)
    next
      case Review_description
      with False assms(2) show ?thesis
        by (simp add: run_review_description split: if_splits)
    next
      case Image_Generations
      with False show ?thesis by simp
    next
      case Review_images
      with assms(1) have "description_approved s" by (simp add: reachable_description_approved)
      with Review_images False u assms(2) show ?thesis
        by (simp add: run_review_images Let_def split: if_splits)
    next
      case Generate_newsletter
      with assms(1) False u assms(2) show ?thesis
        by (simp add: run_generate_newsletter newsletter_request_def split: if_splits)
    next
      case Review_newsletter
      with assms(1) False u assms(2) show ?thesis by (simp add: run_after_newsletter)
    next
      case Final
      with assms(1) False u assms(2) show ?thesis by (simp add: run_after_newsletter)
    qed
  qed
qed

lemma design_facebook_result:
  "fst (design_facebook c u s) =
     (if gen_fb u \<and> \<not> fb_image_approved s
      then s\<lparr>fb_image_url := fst (run_image_designer_agent c (title u) (generated_description s)
                                  ''1792x1024'' ''Facebook Designer'')\<rparr>
      else s)"
  "snd (design_facebook c u s) =
     (if gen_fb u \<and> \<not> fb_image_approved s
      then [image_request (title u) (generated_description s) ''1792x1024''] else [])"
  by (simp_all add: design_facebook_def run_image_designer_agent_def)

lemma design_instagram_result:
  "fst (design_instagram c u s) =
     (if gen_ig u \<and> \<not> ig_image_approved s
      then s\<lparr>ig_image_url := fst (run_image_designer_agent c (title u) (generated_description s)
                                  ''1024x1024'' ''Instagram Designer'')\<rparr>
      else s)"
  "snd (design_instagram c u s) =
     (if gen_ig u \<and> \<not> ig_image_approved s
      then [image_request (title u) (generated_description s) ''1024x1024''] else [])"
  by (simp_all add: design_instagram_def run_image_designer_agent_def)

lemma excerpt: "image_prompt t (take 500 x) = image_prompt t x"
  by (simp add: image_prompt_def)

lemma partition_single:
  "partition_str [c] (x # xs) =
     (if x = c then Some ([], xs)
      else (case partition_str [c] xs of None \<Rightarrow> None | Some (b, a) \<Rightarrow> Some (x # b, a)))"
  by simp

lemma replace_single:
  "replace [c] new s = concat (map (\<lambda>x. if x = c then new else [x]) s)"
proof (induction s)
  case Nil
  show ?case by (subst replace.simps) simp
next
  case (Cons x xs)
  show ?case
  proof (cases "x = c")
    case True
    with Cons show ?thesis by (subst replace.simps) simp
  next
    case False
    show ?thesis
    proof (cases "partition_str [c] xs")
      case None
      then have "replace [c] new xs = xs" by (subst replace.simps) simp
      with Cons None False show ?thesis by (subst replace.simps) simp
    next
      case (Some p)
      obtain b a where p: "p = (b, a)" by (cases p)
      with Some have "replace [c] new xs = b @ new @ replace [c] new a"
        by (subst replace.simps) simp
      with Cons Some p False show ?thesis by (subst replace.simps) simp
    qed
  qed
qed

lemma composing_eq:
  "composing =
   \<lparr>stage = Generate_newsletter, description_approved = True, fb_image_approved = False,
    ig_image_approved = False, newsletter_approved = False,
    generated_description =
      ''Greet the day on the mat.\<newline>\<newline>**Facilitators:** Ana\<newline>\<newline>**When:** Wednesday, November 04, 2026 at 07:00 AM to 08:30 AM\<newline>\<newline>**Where:** Sofia'',
    fb_image_url = None, ig_image_url = None, newsletter_html = [],
    user_inputs = Some news_only\<rparr>"
  by (simp add: composing_def run_defs example_defs request_defs time_defs)

lemma drafting_eq:
  "drafting = init_session_state\<lparr>stage := Generate_description, user_inputs := Some all_three\<rparr>"
  by (simp add: drafting_def run_defs example_defs)

lemma designing_eq:
  "designing =
   \<lparr>stage = Image_Generations, description_approved = True, fb_image_approved = False,
    ig_image_approved = False, newsletter_approved = False,
    generated_description =
      ''Greet the day on the mat.\<newline>\<newline>**Facilitators:** Ana\<newline>\<newline>**When:** Wednesday, November 04, 2026 at 07:00 AM to 08:30 AM\<newline>\<newline>**Where:** Sofia'',
    fb_image_url = None, ig_image_url = None, newsletter_html = [],
    user_inputs = Some all_three\<rparr>"
  by (simp add: designing_def drafting_eq run_defs example_defs request_defs time_defs)

lemma reviewing_eq:
  "reviewing =
     designing\<lparr>stage := Review_images, fb_image_url := Some ''https://img.example/1792x1024'',
       ig_image_url := Some ''https://img.example/1024x1024''\<rparr>"
  by (simp add: reviewing_def designing_eq run_defs example_defs request_defs)

lemma illustrated_eq:
  "illustrated =
     reviewing\<lparr>stage := Generate_newsletter, fb_image_approved := True,
       ig_image_approved := True\<rparr>"
  by (simp add: illustrated_def reviewing_eq designing_eq run_defs example_defs)

lemma reachable_drafting_example: "reachable drafting"
  unfolding drafting_def by (intro reachable_replay reachable.start)

lemma reachable_designing: "reachable designing"
  unfolding designing_def by (intro reachable_replay reachable_drafting_example)

lemma reachable_reviewing: "reachable reviewing"
  unfolding reviewing_def by (intro reachable_replay reachable_designing)

lemma reachable_illustrated: "reachable illustrated"
  unfolding illustrated_def by (intro reachable_replay reachable_reviewing)

lemma half_approved_eq: "half_approved = reviewing\<lparr>ig_image_approved := True\<rparr>"
  by (simp add: half_approved_def reviewing_eq designing_eq run_defs example_defs)

lemma regenerating_eq:
  "regenerating = reviewing\<lparr>fb_image_url := None, stage := Image_Generations\<rparr>"
  by (simp add: regenerating_def reviewing_eq designing_eq run_defs example_defs)

lemma reachable_half_approved: "reachable half_approved"
  unfolding half_approved_def by (intro reachable_replay reachable_reviewing)

lemma reachable_composing: "reachable composing"
  unfolding composing_def by (intro reachable_replay reachable.start)

lemma published_eq:
  "published = illustrated\<lparr>stage := Final, newsletter_approved := True,
     newsletter_html := ''<h1>Sunrise Yoga</h1>''\<rparr>"
  by (simp add: published_def illustrated_eq reviewing_eq designing_eq run_defs example_defs
        request_defs py_or_def clean_html_def contains_def split.simps strip_def is_space_def)

lemma reachable_published: "reachable published"
  unfolding published_def by (intro reachable_replay reachable_illustrated)

section \<open>The final stage is gated by every requested approval\<close>

text \<open>
  C1.  Whatever the three request flags are, a session that any sequence of runs has
  brought to the stage \<open>final\<close> has its description approved, and each of the facebook
  image, the instagram image and the newsletter is either not requested or approved:
  no sequence of runs reaches \<open>final\<close> with this conjunction false.
\<close>

theorem final_requires_every_requested_approval:
  assumes "reachable s" and "stage s = Final"
  shows "all_approved s \<and>
         (\<exists>u. user_inputs s = Some u \<and> description_approved s \<and>
              (\<not> gen_fb u \<or> fb_image_approved s) \<and>
              (\<not> gen_ig u \<or> ig_image_approved s) \<and>
              (\<not> gen_news u \<or> newsletter_approved s))"
proof -
  from assms(1) have "gate_inv s" by (rule reachable_gate_inv)
  with assms(2) obtain u where u: "user_inputs s = Some u"
    by (auto simp: gate_inv_def)
  from \<open>gate_inv s\<close> assms(2) u
  have "description_approved s" "\<not> gen_fb u \<or> fb_image_approved s"
    "\<not> gen_ig u \<or> ig_image_approved s" "\<not> gen_news u \<or> newsletter_approved s"
    by (simp_all add: gate_inv_def get_flag_def)
  with u show ?thesis by (simp add: all_approved_def get_flag_def)
qed

theorem final_requires_every_requested_approval_witness:
  "stage published = Final \<and> get_flag gen_fb published \<and> get_flag gen_ig published \<and>
   get_flag gen_news published \<and> all_approved published \<and>
   fb_image_approved published \<and> ig_image_approved published \<and> newsletter_approved published"
proof -
  have f: "stage published = Final" "get_flag gen_fb published" "get_flag gen_ig published"
    "get_flag gen_news published"
    by (simp_all add: published_eq illustrated_eq reviewing_eq designing_eq get_flag_def
          all_three_def)
  from final_requires_every_requested_approval [OF reachable_published f(1)] f
  show ?thesis by (auto simp: get_flag_def)
qed

section \<open>The newsletter stage\<close>

text \<open>
  C3.  In a run that finds the stage \<open>generate_newsletter\<close> with the newsletter flag
  true and no header image (neither image reference is truthy), the controller sends
  no request to the provider and sets the newsletter body to
  \<open><h1>title</h1><p>description</p>\<close>, the description being the one the run holds,
  with every newline character replaced by \<open><br>\<close>.  (A run in which the form is
  submitted starts a new session instead.)
\<close>

theorem manual_newsletter_without_header_image:
  assumes "reachable s" and "stage s = Generate_newsletter" and "user_inputs s = Some u"
    and "gen_news u" and "\<not> truthy (fb_image_url s)" and "\<not> truthy (ig_image_url s)"
    and "\<not> submitted ui"
  shows "calls (create_event_page c st ui s) = [] \<and>
         generated_description (sess (create_event_page c st ui s)) =
           text_area (description_edit ui) (generated_description s) \<and>
         newsletter_html (sess (create_event_page c st ui s)) =
           ''<h1>'' @ title u @ ''</h1><p>''
             @ concat (map (\<lambda>x. if x = CHR 0x0A then ''<br>'' else [x])
                 (generated_description (sess (create_event_page c st ui s))))
             @ ''</p>'' \<and>
         stage (sess (create_event_page c st ui s)) = Review_newsletter \<and>
         flow (create_event_page c st ui s) = Rerun"
proof -
  from assms(2) have r: "5 \<le> rank (stage s)" by simp
  note a = reachable_past_images [OF assms(1) r assms(3)]
  have "create_event_page c st ui s =
          newsletter_stage c st ui
            (s\<lparr>generated_description := text_area (description_edit ui) (generated_description s)\<rparr>)"
    by (rule past_images [OF r a(1) assms(7) assms(3) a(2) a(3)])
  with assms(2-6) show ?thesis
    by (simp add: newsletter_stage_def Let_def py_or_def manual_newsletter_def replace_single)
qed

theorem manual_newsletter_without_header_image_witness:
  "calls (create_event_page studio empty_disk (visitor news_only) composing) = [] \<and>
   newsletter_html (sess (create_event_page studio empty_disk (visitor news_only) composing)) =
     ''<h1>Sunrise Yoga</h1><p>Greet the day on the mat.<br><br>**Facilitators:** Ana<br><br>**When:** Wednesday, November 04, 2026 at 07:00 AM to 08:30 AM<br><br>**Where:** Sofia</p>''"
proof -
  have h: "stage composing = Generate_newsletter" "user_inputs composing = Some news_only"
    "\<not> truthy (fb_image_url composing)" "\<not> truthy (ig_image_url composing)"
    by (simp_all add: composing_eq)
  have g: "gen_news news_only" "\<not> submitted (visitor news_only)"
    "title news_only = ''Sunrise Yoga''"
    by (simp_all add: example_defs)
  have d: "text_area (description_edit (visitor news_only)) (generated_description composing) =
      ''Greet the day on the mat.\<newline>\<newline>**Facilitators:** Ana\<newline>\<newline>**When:** Wednesday, November 04, 2026 at 07:00 AM to 08:30 AM\<newline>\<newline>**Where:** Sofia''"
    by (simp add: composing_eq text_area_def visitor_def)
  from manual_newsletter_without_header_image
         [OF reachable_composing h(1,2) g(1) h(3,4) g(2), of studio empty_disk]
  show ?thesis by (simp add: d g(3))
qed

text \<open>
  C9.  When the newsletter is composed and the facebook image reference is present, the
  one request sent names the facebook image as the header image, whether or not an
  instagram image is present too; the instagram image is named only when the facebook
  reference is absent (or both references read the same).
\<close>

theorem facebook_image_heads_the_newsletter:
  assumes "reachable s" and "stage s = Generate_newsletter" and "user_inputs s = Some u"
    and "gen_news u" and "\<not> submitted ui"
  shows "(truthy (fb_image_url s) \<longrightarrow>
            calls (create_event_page c st ui s) =
              [newsletter_request (title u)
                 (text_area (description_edit ui) (generated_description s)) (fb_image_url s)]) \<and>
         (\<not> truthy (fb_image_url s) \<and> truthy (ig_image_url s) \<longrightarrow>
            calls (create_event_page c st ui s) =
              [newsletter_request (title u)
                 (text_area (description_edit ui) (generated_description s)) (ig_image_url s)]) \<and>
         (\<not> truthy (fb_image_url s) \<and> \<not> truthy (ig_image_url s) \<longrightarrow>
            calls (create_event_page c st ui s) = []) \<and>
         (truthy (fb_image_url s) \<and>
          calls (create_event_page c st ui s) =
              [newsletter_request (title u)
                 (text_area (description_edit ui) (generated_description s)) (ig_image_url s)] \<longrightarrow>
            fstr (ig_image_url s) = fstr (fb_image_url s))"
  using assms(2-4)
  by (auto simp: run_generate_newsletter [OF assms(1,2,3,5)] py_or_def newsletter_request_header)

theorem facebook_image_heads_the_newsletter_witness:
  "truthy (ig_image_url illustrated) \<and>
   calls (create_event_page studio empty_disk (visitor all_three) illustrated) =
     [newsletter_request ''Sunrise Yoga'' (generated_description illustrated)
        (Some ''https://img.example/1792x1024'')]"
proof -
  have h: "stage illustrated = Generate_newsletter" "user_inputs illustrated = Some all_three"
    "truthy (fb_image_url illustrated)" "truthy (ig_image_url illustrated)"
    "fb_image_url illustrated = Some ''https://img.example/1792x1024''"
    by (simp_all add: illustrated_eq reviewing_eq designing_eq)
  have g: "gen_news all_three" "\<not> submitted (visitor all_three)"
    "title all_three = ''Sunrise Yoga''" "description_edit (visitor all_three) = None"
    by (simp_all add: example_defs)
  from facebook_image_heads_the_newsletter
         [OF reachable_illustrated h(1,2) g(1,2), where c = studio and st = empty_disk]
  show ?thesis using h(3,4,5) g(3,4) by (simp add: text_area_def)
qed

section \<open>The description stage\<close>

text \<open>
  C6, as the code has it.  A run that finds the stage \<open>generate_description\<close> makes
  one description request and ends, by a rerun, in the stage \<open>review_description\<close>,
  whatever the provider does: no exception leaves the run, and the stage is not moved
  back.  When the provider raises an exception or returns no choice, the description
  stays empty and nothing but the stage changes.  When the provider returns a choice,
  its text is formatted into the description, followed by the facilitators, the time
  and the place; the code has no test for a choice without text, so that an absent
  text gives the description \<open>None\<close> and the footer, and an empty text the footer
  alone.
\<close>

theorem description_stage_advances_and_formats_what_it_gets:
  assumes "reachable s" and "stage s = Generate_description" and "user_inputs s = Some u"
    and "\<not> submitted ui"
  shows "stage (sess (create_event_page c st ui s)) = Review_description \<and>
         flow (create_event_page c st ui s) = Rerun \<and>
         calls (create_event_page c st ui s) =
           [content_writer_request (title u) (facilitators u) (short_desc u)] \<and>
         (c (content_writer_request (title u) (facilitators u) (short_desc u)) = Inl e \<or>
          c (content_writer_request (title u) (facilitators u) (short_desc u)) = Inr []
            \<longrightarrow> generated_description (sess (create_event_page c st ui s)) = [] \<and>
                sess (create_event_page c st ui s) = s\<lparr>stage := Review_description\<rparr>) \<and>
         (c (content_writer_request (title u) (facilitators u) (short_desc u)) = Inr (answer # others)
            \<longrightarrow> generated_description (sess (create_event_page c st ui s)) =
                  fstr answer @ ''\<newline>\<newline>**Facilitators:** '' @ facilitators u
                    @ ''\<newline>\<newline>**When:** ''
                    @ strftime (start_time u) ''%A, %B %d, %Y at %I:%M %p'' @ '' to ''
                    @ strftime (end_time u) ''%I:%M %p''
                    @ ''\<newline>\<newline>**Where:** '' @ location u) \<and>
         (c (content_writer_request (title u) (facilitators u) (short_desc u)) = Inr (None # others)
            \<longrightarrow> generated_description (sess (create_event_page c st ui s)) =
                  ''None\<newline>\<newline>**Facilitators:** '' @ facilitators u
                    @ ''\<newline>\<newline>**When:** ''
                    @ strftime (start_time u) ''%A, %B %d, %Y at %I:%M %p'' @ '' to ''
                    @ strftime (end_time u) ''%I:%M %p''
                    @ ''\<newline>\<newline>**Where:** '' @ location u) \<and>
         (c (content_writer_request (title u) (facilitators u) (short_desc u)) = Inr (Some [] # others)
            \<longrightarrow> generated_description (sess (create_event_page c st ui s)) =
                  ''\<newline>\<newline>**Facilitators:** '' @ facilitators u
                    @ ''\<newline>\<newline>**When:** ''
                    @ strftime (start_time u) ''%A, %B %d, %Y at %I:%M %p'' @ '' to ''
                    @ strftime (end_time u) ''%I:%M %p''
                    @ ''\<newline>\<newline>**Where:** '' @ location u)"
  using reachable_drafting [OF assms(1,2)]
  by (auto simp: run_generate_description [OF assms(2,3,4)] format_description_def item_def)

theorem description_stage_advances_and_formats_what_it_gets_witness:
  "stage (sess (create_event_page offline empty_disk (visitor all_three) drafting))
     = Review_description \<and>
   flow (create_event_page offline empty_disk (visitor all_three) drafting) = Rerun \<and>
   generated_description (sess (create_event_page offline empty_disk (visitor all_three) drafting))
     = [] \<and>
   generated_description (sess (create_event_page studio empty_disk (visitor all_three) drafting))
     = ''Greet the day on the mat.\<newline>\<newline>**Facilitators:** Ana\<newline>\<newline>**When:** Wednesday, November 04, 2026 at 07:00 AM to 08:30 AM\<newline>\<newline>**Where:** Sofia''"
proof -
  have h: "stage drafting = Generate_description" "user_inputs drafting = Some all_three"
    by (simp_all add: drafting_eq)
  have g: "\<not> submitted (visitor all_three)" by (simp add: visitor_def)
  have f: "offline (content_writer_request (title all_three) (facilitators all_three)
             (short_desc all_three)) = Inl APIError"
    by (simp add: offline_def)
  have f2: "studio (content_writer_request (title all_three) (facilitators all_three)
             (short_desc all_three)) = Inr (Some ''Greet the day on the mat.'' # [])"
    by (simp add: studio_def content_writer_request_def)
  from description_stage_advances_and_formats_what_it_gets
         [OF reachable_drafting_example h g, where c = offline and e = APIError
            and st = empty_disk] f
  have a: "stage (sess (create_event_page offline empty_disk (visitor all_three) drafting))
       = Review_description"
    "flow (create_event_page offline empty_disk (visitor all_three) drafting) = Rerun"
    "generated_description (sess (create_event_page offline empty_disk (visitor all_three) drafting))
       = []"
    by (simp_all add: drafting_eq init_session_state_def)
  from description_stage_advances_and_formats_what_it_gets
         [OF reachable_drafting_example h g, where c = studio
            and answer = "Some ''Greet the day on the mat.''" and others = "[]"
            and st = empty_disk] f2
  have "generated_description
          (sess (create_event_page studio empty_disk (visitor all_three) drafting)) =
        fstr (Some ''Greet the day on the mat.'') @ ''\<newline>\<newline>**Facilitators:** ''
          @ facilitators all_three @ ''\<newline>\<newline>**When:** ''
          @ strftime (start_time all_three) ''%A, %B %d, %Y at %I:%M %p'' @ '' to ''
          @ strftime (end_time all_three) ''%I:%M %p''
          @ ''\<newline>\<newline>**Where:** '' @ location all_three"
    by blast
  then have b: "generated_description
          (sess (create_event_page studio empty_disk (visitor all_three) drafting)) =
        ''Greet the day on the mat.\<newline>\<newline>**Facilitators:** Ana\<newline>\<newline>**When:** Wednesday, November 04, 2026 at 07:00 AM to 08:30 AM\<newline>\<newline>**Where:** Sofia''"
    by (simp add: example_defs time_defs)
  from a b show ?thesis by simp
qed

text \<open>
  C6 as stated fails: a call that returns a choice without text, or with the empty
  text, does not leave the description empty.
\<close>

theorem empty_answer_is_not_left_empty:
  "generated_description (sess (create_event_page mute empty_disk (visitor all_three) drafting)) =
     ''None\<newline>\<newline>**Facilitators:** Ana\<newline>\<newline>**When:** Wednesday, November 04, 2026 at 07:00 AM to 08:30 AM\<newline>\<newline>**Where:** Sofia'' \<and>
   generated_description (sess (create_event_page blank empty_disk (visitor all_three) drafting)) =
     ''\<newline>\<newline>**Facilitators:** Ana\<newline>\<newline>**When:** Wednesday, November 04, 2026 at 07:00 AM to 08:30 AM\<newline>\<newline>**Where:** Sofia''"
  by (simp add: drafting_eq run_defs example_defs request_defs time_defs mute_def blank_def)

section \<open>The image stage\<close>

text \<open>
  C8.  A run sends image requests only when it finds the stage \<open>Image Generations\<close>.
  There it requests the facebook image (whose answer becomes \<open>fb_image_url\<close>) with
  size \<open>1792x1024\<close> and the instagram image (whose answer becomes \<open>ig_image_url\<close>)
  with size \<open>1024x1024\<close>, each when requested and not yet approved.  The prompt of an
  image request is the fixed text of lines 140 to 146 around the title and the first
  500 characters of the description: nothing more of the description is sent.  When
  the provider raises an exception or returns no image, the operation returns the
  absent reference: it never raises.
\<close>

theorem image_requests_sizes_and_excerpt:
  assumes "reachable s" and "user_inputs s = Some u"
  shows "(Images_generate m p k sz q \<in> set (calls (create_event_page c st ui s)) \<longrightarrow>
            stage s = Image_Generations \<and> \<not> submitted ui) \<and>
         (stage s = Image_Generations \<and> \<not> submitted ui \<longrightarrow>
            calls (create_event_page c st ui s) =
              (if gen_fb u \<and> \<not> fb_image_approved s
               then [image_request (title u)
                       (text_area (description_edit ui) (generated_description s)) ''1792x1024'']
               else []) @
              (if gen_ig u \<and> \<not> ig_image_approved s
               then [image_request (title u)
                       (text_area (description_edit ui) (generated_description s)) ''1024x1024'']
               else []) \<and>
            fb_image_url (sess (create_event_page c st ui s)) =
              (if gen_fb u \<and> \<not> fb_image_approved s
               then fst (run_image_designer_agent c (title u)
                      (text_area (description_edit ui) (generated_description s)) ''1792x1024''
                      ''Facebook Designer'')
               else fb_image_url s) \<and>
            ig_image_url (sess (create_event_page c st ui s)) =
              (if gen_ig u \<and> \<not> ig_image_approved s
               then fst (run_image_designer_agent c (title u)
                      (text_area (description_edit ui) (generated_description s)) ''1024x1024''
                      ''Instagram Designer'')
               else ig_image_url s)) \<and>
         image_request t x z =
           Images_generate ''dall-e-3''
             (''\<newline>    Create a visually stunning, high-quality image for a wellness event titled \"''
                @ t @ ''\".''
              @ ''\<newline>    The image must have the exact text \"'' @ t
                @ ''\" clearly visible and legible on it.''
              @ ''\<newline>    The aesthetic should be inspiring, serene, and suitable for a spiritual/wellness event (like ecstatic dance, yoga, or meditation).''
              @ ''\<newline>    The image should be vibrant and professional.''
              @ ''\<newline>    Key themes from the event description: '' @ take 500 x
              @ ''\<newline>    '')
             1 z ''hd'' \<and>
         length (take 500 x) \<le> 500 \<and>
         (c (image_request t x z) = Inl e \<or> c (image_request t x z) = Inr [] \<longrightarrow>
            run_image_designer_agent c t x z a = (None, [image_request t x z]))"
proof -
  have 1: "Images_generate m p k sz q \<in> set (calls (create_event_page c st ui s)) \<longrightarrow>
            stage s = Image_Generations \<and> \<not> submitted ui"
    using image_calls_only_when_designing [OF assms(1)] by blast
  have 3: "image_request t x z =
           Images_generate ''dall-e-3''
             (''\<newline>    Create a visually stunning, high-quality image for a wellness event titled \"''
                @ t @ ''\".''
              @ ''\<newline>    The image must have the exact text \"'' @ t
                @ ''\" clearly visible and legible on it.''
              @ ''\<newline>    The aesthetic should be inspiring, serene, and suitable for a spiritual/wellness event (like ecstatic dance, yoga, or meditation).''
              @ ''\<newline>    The image should be vibrant and professional.''
              @ ''\<newline>    Key themes from the event description: '' @ take 500 x
              @ ''\<newline>    '')
             1 z ''hd''"
    by (simp add: image_request_def image_prompt_def)
  have 4: "c (image_request t x z) = Inl e \<or> c (image_request t x z) = Inr [] \<longrightarrow>
            run_image_designer_agent c t x z a = (None, [image_request t x z])"
    by (auto simp: run_image_designer_agent_def item_def)
  have 5: "length (take 500 x) \<le> 500" by simp
  have 2: ?thesis if "stage s = Image_Generations" "\<not> submitted ui"
  proof -
    from that(1) assms(1) have "description_approved s"
      by (simp add: reachable_description_approved)
    note run = run_image_generations [OF that(1) this assms(2) that(2), of c st]
    have "calls (create_event_page c st ui s) =
              (if gen_fb u \<and> \<not> fb_image_approved s
               then [image_request (title u)
                       (text_area (description_edit ui) (generated_description s)) ''1792x1024'']
               else []) @
              (if gen_ig u \<and> \<not> ig_image_approved s
               then [image_request (title u)
                       (text_area (description_edit ui) (generated_description s)) ''1024x1024'']
               else [])"
      by (auto simp: run design_facebook_result design_instagram_result)
    moreover have "fb_image_url (sess (create_event_page c st ui s)) =
              (if gen_fb u \<and> \<not> fb_image_approved s
               then fst (run_image_designer_agent c (title u)
                      (text_area (description_edit ui) (generated_description s)) ''1792x1024''
                      ''Facebook Designer'')
               else fb_image_url s)"
      by (auto simp: run design_facebook_result design_instagram_result)
    moreover have "ig_image_url (sess (create_event_page c st ui s)) =
              (if gen_ig u \<and> \<not> ig_image_approved s
               then fst (run_image_designer_agent c (title u)
                      (text_area (description_edit ui) (generated_description s)) ''1024x1024''
                      ''Instagram Designer'')
               else ig_image_url s)"
      by (auto simp: run design_facebook_result design_instagram_result)
    ultimately show ?thesis using 1 3 4 5 by blast
  qed
  show ?thesis
  proof (cases "stage s = Image_Generations \<and> \<not> submitted ui")
    case True
    then show ?thesis using 2 by blast
  next
    case False
    with 1 3 4 5 show ?thesis by blast
  qed
qed

theorem image_requests_sizes_and_excerpt_witness:
  "calls (create_event_page offline empty_disk wordy designing) =
     [Images_generate ''dall-e-3''
        (''\<newline>    Create a visually stunning, high-quality image for a wellness event titled \"Sunrise Yoga\".''
         @ ''\<newline>    The image must have the exact text \"Sunrise Yoga\" clearly visible and legible on it.''
         @ ''\<newline>    The aesthetic should be inspiring, serene, and suitable for a spiritual/wellness event (like ecstatic dance, yoga, or meditation).''
         @ ''\<newline>    The image should be vibrant and professional.''
         @ ''\<newline>    Key themes from the event description: '' @ replicate 500 (CHR ''a'')
         @ ''\<newline>    '')
        1 ''1792x1024'' ''hd'',
      Images_generate ''dall-e-3''
        (''\<newline>    Create a visually stunning, high-quality image for a wellness event titled \"Sunrise Yoga\".''
         @ ''\<newline>    The image must have the exact text \"Sunrise Yoga\" clearly visible and legible on it.''
         @ ''\<newline>    The aesthetic should be inspiring, serene, and suitable for a spiritual/wellness event (like ecstatic dance, yoga, or meditation).''
         @ ''\<newline>    The image should be vibrant and professional.''
         @ ''\<newline>    Key themes from the event description: '' @ replicate 500 (CHR ''a'')
         @ ''\<newline>    '')
        1 ''1024x1024'' ''hd''] \<and>
   fb_image_url (sess (create_event_page offline empty_disk wordy designing)) = None \<and>
   ig_image_url (sess (create_event_page offline empty_disk wordy designing)) = None"
proof -
  have h: "user_inputs designing = Some all_three" "stage designing = Image_Generations"
    "\<not> fb_image_approved designing" "\<not> ig_image_approved designing"
    by (simp_all add: designing_eq)
  have g: "\<not> submitted wordy" "description_edit wordy = Some (replicate 600 (CHR ''a''))"
    "gen_fb all_three" "gen_ig all_three" "title all_three = ''Sunrise Yoga''"
    by (simp_all add: wordy_def example_defs)
  have f: "offline (image_request t x z) = Inl APIError" for t x z
    by (simp add: offline_def)
  have x: "take 500 (replicate 600 (CHR ''a'')) = replicate 500 (CHR ''a'')"
    by simp
  note w = image_requests_sizes_and_excerpt [OF reachable_designing h(1),
      where c = offline and st = empty_disk and ui = wordy and e = APIError
        and t = "''Sunrise Yoga''" and x = "replicate 600 (CHR ''a'')"
        and m = "''dall-e-3''" and p = "[]" and k = 1 and sz = "[]" and q = "[]"]
  note w1 = w [where z = "''1792x1024''" and a = "''Facebook Designer''"]
  note w2 = w [where z = "''1024x1024''" and a = "''Instagram Designer''"]
  have r1: "image_request ''Sunrise Yoga'' (replicate 600 (CHR ''a'')) ''1792x1024'' =
      Images_generate ''dall-e-3''
        (''\<newline>    Create a visually stunning, high-quality image for a wellness event titled \"Sunrise Yoga\".''
         @ ''\<newline>    The image must have the exact text \"Sunrise Yoga\" clearly visible and legible on it.''
         @ ''\<newline>    The aesthetic should be inspiring, serene, and suitable for a spiritual/wellness event (like ecstatic dance, yoga, or meditation).''
         @ ''\<newline>    The image should be vibrant and professional.''
         @ ''\<newline>    Key themes from the event description: '' @ replicate 500 (CHR ''a'')
         @ ''\<newline>    '')
        1 ''1792x1024'' ''hd''"
    using w1 by (simp add: x)
  have r2: "image_request ''Sunrise Yoga'' (replicate 600 (CHR ''a'')) ''1024x1024'' =
      Images_generate ''dall-e-3''
        (''\<newline>    Create a visually stunning, high-quality image for a wellness event titled \"Sunrise Yoga\".''
         @ ''\<newline>    The image must have the exact text \"Sunrise Yoga\" clearly visible and legible on it.''
         @ ''\<newline>    The aesthetic should be inspiring, serene, and suitable for a spiritual/wellness event (like ecstatic dance, yoga, or meditation).''
         @ ''\<newline>    The image should be vibrant and professional.''
         @ ''\<newline>    Key themes from the event description: '' @ replicate 500 (CHR ''a'')
         @ ''\<newline>    '')
        1 ''1024x1024'' ''hd''"
    using w2 by (simp add: x)
  have c: "calls (create_event_page offline empty_disk wordy designing) =
      [image_request ''Sunrise Yoga'' (replicate 600 (CHR ''a'')) ''1792x1024'',
       image_request ''Sunrise Yoga'' (replicate 600 (CHR ''a'')) ''1024x1024'']"
    and u: "fb_image_url (sess (create_event_page offline empty_disk wordy designing)) = None"
      "ig_image_url (sess (create_event_page offline empty_disk wordy designing)) = None"
    using w1 [THEN conjunct2, THEN conjunct1] w1 [THEN conjunct2, THEN conjunct2, THEN conjunct2, THEN conjunct2]
      w2 [THEN conjunct2, THEN conjunct2, THEN conjunct2, THEN conjunct2] h(2-4) g f
    by (simp_all add: text_area_def)
  show ?thesis unfolding c r1 r2 using u by simp
qed

text \<open>
  C2, as the code has it.  In \<open>review_images\<close> with both images requested, the
  regenerate action of one image clears the stored reference of that image alone and
  sets the stage back to \<open>Image Generations\<close>, sending nothing; no approval flag
  changes.  The generation run that follows requests that image again and, besides,
  the other image when it is not yet approved, replacing its reference; an image that
  is approved keeps its flag and its reference and is not requested again.
\<close>

theorem regenerate_clears_one_reference_then_redesigns_unapproved:
  assumes "stage s = Review_images" and "description_approved s" and "user_inputs s = Some u"
    and "gen_fb u" and "gen_ig u" and "\<not> submitted ui" and "\<not> submitted ui'"
    and s1: "s1 = sess (create_event_page c st ui s)"
    and s2: "s2 = sess (create_event_page c' st' ui' s1)"
  shows
    "(clicked ui = Some Regenerate_FB_Image \<and> truthy (fb_image_url s) \<and> \<not> fb_image_approved s \<longrightarrow>
        s1 = (edited ui s)\<lparr>fb_image_url := None, stage := Image_Generations\<rparr> \<and>
        calls (create_event_page c st ui s) = [] \<and>
        calls (create_event_page c' st' ui' s1) =
          image_request (title u) (generated_description s2) ''1792x1024''
            # (if ig_image_approved s then []
               else [image_request (title u) (generated_description s2) ''1024x1024'']) \<and>
        fb_image_url s2 =
          fst (run_image_designer_agent c' (title u) (generated_description s2) ''1792x1024''
                 ''Facebook Designer'') \<and>
        ig_image_url s2 =
          (if ig_image_approved s then ig_image_url s
           else fst (run_image_designer_agent c' (title u) (generated_description s2)
                       ''1024x1024'' ''Instagram Designer'')) \<and>
        ig_image_approved s2 = ig_image_approved s \<and> \<not> fb_image_approved s2 \<and>
        stage s2 = Review_images) \<and>
     (clicked ui = Some Regenerate_IG_Image \<and> truthy (ig_image_url s) \<and> \<not> ig_image_approved s \<longrightarrow>
        s1 = (edited ui s)\<lparr>ig_image_url := None, stage := Image_Generations\<rparr> \<and>
        calls (create_event_page c st ui s) = [] \<and>
        calls (create_event_page c' st' ui' s1) =
          (if fb_image_approved s then []
           else [image_request (title u) (generated_description s2) ''1792x1024''])
            @ [image_request (title u) (generated_description s2) ''1024x1024''] \<and>
        ig_image_url s2 =
          fst (run_image_designer_agent c' (title u) (generated_description s2) ''1024x1024''
                 ''Instagram Designer'') \<and>
        fb_image_url s2 =
          (if fb_image_approved s then fb_image_url s
           else fst (run_image_designer_agent c' (title u) (generated_description s2)
                       ''1792x1024'' ''Facebook Designer'')) \<and>
        fb_image_approved s2 = fb_image_approved s \<and> \<not> ig_image_approved s2 \<and>
        stage s2 = Review_images)"
proof (intro conjI impI)
  assume a: "clicked ui = Some Regenerate_FB_Image \<and> truthy (fb_image_url s) \<and> \<not> fb_image_approved s"
  have r1: "create_event_page c st ui s =
      finish Rerun st [] ((edited ui s)\<lparr>fb_image_url := None, stage := Image_Generations\<rparr>)"
    using a assms(4) by (simp add: run_review_images [OF assms(1,2,3,6)] Let_def)
  then have e1: "s1 = (edited ui s)\<lparr>fb_image_url := None, stage := Image_Generations\<rparr>"
    by (simp add: s1)
  have r2: "create_event_page c' st' ui' s1 =
      finish Rerun st'
        (snd (design_facebook c' u (edited ui' s1))
           @ snd (design_instagram c' u (fst (design_facebook c' u (edited ui' s1)))))
        ((fst (design_instagram c' u (fst (design_facebook c' u (edited ui' s1)))))
           \<lparr>stage := Review_images\<rparr>)"
    by (rule run_image_generations) (use e1 assms in simp_all)
  have f1: "fb_image_approved s1 = fb_image_approved s" "ig_image_approved s1 = ig_image_approved s"
    "ig_image_url s1 = ig_image_url s" "fb_image_url s1 = None"
    "generated_description s1 = text_area (description_edit ui) (generated_description s)"
    by (simp_all add: e1)
  show "s1 = (edited ui s)\<lparr>fb_image_url := None, stage := Image_Generations\<rparr>" by (rule e1)
  show "calls (create_event_page c st ui s) = []" by (simp add: r1)
  have d: "generated_description s2 = text_area (description_edit ui') (generated_description s1)"
    by (simp add: s2 r2 design_facebook_result design_instagram_result)
  show "calls (create_event_page c' st' ui' s1) =
          image_request (title u) (generated_description s2) ''1792x1024''
            # (if ig_image_approved s then []
               else [image_request (title u) (generated_description s2) ''1024x1024''])"
    using a assms(4,5) by (simp add: d r2 design_facebook_result design_instagram_result f1)
  show "fb_image_url s2 =
          fst (run_image_designer_agent c' (title u) (generated_description s2) ''1792x1024''
                 ''Facebook Designer'')"
    using a assms(4,5) by (simp add: d s2 r2 design_facebook_result design_instagram_result f1)
  show "ig_image_url s2 =
          (if ig_image_approved s then ig_image_url s
           else fst (run_image_designer_agent c' (title u) (generated_description s2)
                       ''1024x1024'' ''Instagram Designer''))"
    using a assms(4,5) by (simp add: d s2 r2 design_facebook_result design_instagram_result f1)
  show "ig_image_approved s2 = ig_image_approved s"
    using a assms(4,5) by (simp add: s2 r2 design_facebook_result design_instagram_result f1)
  show "\<not> fb_image_approved s2"
    using a assms(4,5) by (simp add: s2 r2 design_facebook_result design_instagram_result f1)
  show "stage s2 = Review_images"
    by (simp add: s2 r2)
next
  assume a: "clicked ui = Some Regenerate_IG_Image \<and> truthy (ig_image_url s) \<and> \<not> ig_image_approved s"
  have r1: "create_event_page c st ui s =
      finish Rerun st [] ((edited ui s)\<lparr>ig_image_url := None, stage := Image_Generations\<rparr>)"
    using a assms(5) by (simp add: run_review_images [OF assms(1,2,3,6)] Let_def)
  then have e1: "s1 = (edited ui s)\<lparr>ig_image_url := None, stage := Image_Generations\<rparr>"
    by (simp add: s1)
  have r2: "create_event_page c' st' ui' s1 =
      finish Rerun st'
        (snd (design_facebook c' u (edited ui' s1))
           @ snd (design_instagram c' u (fst (design_facebook c' u (edited ui' s1)))))
        ((fst (design_instagram c' u (fst (design_facebook c' u (edited ui' s1)))))
           \<lparr>stage := Review_images\<rparr>)"
    by (rule run_image_generations) (use e1 assms in simp_all)
  have f1: "fb_image_approved s1 = fb_image_approved s" "ig_image_approved s1 = ig_image_approved s"
    "fb_image_url s1 = fb_image_url s" "ig_image_url s1 = None"
    "generated_description s1 = text_area (description_edit ui) (generated_description s)"
    by (simp_all add: e1)
  show "s1 = (edited ui s)\<lparr>ig_image_url := None, stage := Image_Generations\<rparr>" by (rule e1)
  show "calls (create_event_page c st ui s) = []" by (simp add: r1)
  have d: "generated_description s2 = text_area (description_edit ui') (generated_description s1)"
    by (simp add: s2 r2 design_facebook_result design_instagram_result)
  show "calls (create_event_page c' st' ui' s1) =
          (if fb_image_approved s then []
           else [image_request (title u) (generated_description s2) ''1792x1024''])
            @ [image_request (title u) (generated_description s2) ''1024x1024'']"
    using a assms(4,5) by (simp add: d r2 design_facebook_result design_instagram_result f1)
  show "ig_image_url s2 =
          fst (run_image_designer_agent c' (title u) (generated_description s2) ''1024x1024''
                 ''Instagram Designer'')"
    using a assms(4,5) by (simp add: d s2 r2 design_facebook_result design_instagram_result f1)
  show "fb_image_url s2 =
          (if fb_image_approved s then fb_image_url s
           else fst (run_image_designer_agent c' (title u) (generated_description s2)
                       ''1792x1024'' ''Facebook Designer''))"
    using a assms(4,5) by (simp add: d s2 r2 design_facebook_result design_instagram_result f1)
  show "fb_image_approved s2 = fb_image_approved s"
    using a assms(4,5) by (simp add: s2 r2 design_facebook_result design_instagram_result f1)
  show "\<not> ig_image_approved s2"
    using a assms(4,5) by (simp add: s2 r2 design_facebook_result design_instagram_result f1)
  show "stage s2 = Review_images"
    by (simp add: s2 r2)
qed

theorem regenerate_clears_one_reference_then_redesigns_unapproved_witness:
  "calls (create_event_page atelier empty_disk (click Regenerate_FB_Image (visitor all_three))
            half_approved) = [] \<and>
   calls (create_event_page atelier empty_disk (visitor all_three)
            (sess (create_event_page atelier empty_disk
                     (click Regenerate_FB_Image (visitor all_three)) half_approved))) =
     [image_request ''Sunrise Yoga'' (generated_description half_approved) ''1792x1024''] \<and>
   ig_image_url (sess (create_event_page atelier empty_disk (visitor all_three)
            (sess (create_event_page atelier empty_disk
                     (click Regenerate_FB_Image (visitor all_three)) half_approved)))) =
     Some ''https://img.example/1024x1024'' \<and>
   ig_image_approved (sess (create_event_page atelier empty_disk (visitor all_three)
            (sess (create_event_page atelier empty_disk
                     (click Regenerate_FB_Image (visitor all_three)) half_approved))))"
proof -
  let ?ui = "click Regenerate_FB_Image (visitor all_three)"
  let ?s1 = "sess (create_event_page atelier empty_disk ?ui half_approved)"
  let ?s2 = "sess (create_event_page atelier empty_disk (visitor all_three) ?s1)"
  have h: "stage half_approved = Review_images" "description_approved half_approved"
    "user_inputs half_approved = Some all_three" "truthy (fb_image_url half_approved)"
    "\<not> fb_image_approved half_approved" "ig_image_approved half_approved"
    "ig_image_url half_approved = Some ''https://img.example/1024x1024''"
    by (simp_all add: half_approved_eq reviewing_eq designing_eq)
  have g: "gen_fb all_three" "gen_ig all_three" "\<not> submitted ?ui"
    "\<not> submitted (visitor all_three)" "clicked ?ui = Some Regenerate_FB_Image"
    "title all_three = ''Sunrise Yoga''" "description_edit ?ui = None"
    "description_edit (visitor all_three) = None"
    by (simp_all add: example_defs)
  note w = regenerate_clears_one_reference_then_redesigns_unapproved
      [OF h(1,2,3) g(1,2,3,4) refl refl, where c = atelier and st = empty_disk
         and c' = atelier and st' = empty_disk]
  have ante: "clicked ?ui = Some Regenerate_FB_Image \<and> truthy (fb_image_url half_approved) \<and>
      \<not> fb_image_approved half_approved"
    using h(4,5) g(5) by simp
  note w1 = w [THEN conjunct1, THEN mp, OF ante]
  note a = w1 [THEN conjunct1]
  note b = w1 [THEN conjunct2, THEN conjunct1]
  note c = w1 [THEN conjunct2, THEN conjunct2, THEN conjunct1]
  note d = w1 [THEN conjunct2, THEN conjunct2, THEN conjunct2, THEN conjunct2, THEN conjunct1]
  note e = w1 [THEN conjunct2, THEN conjunct2, THEN conjunct2, THEN conjunct2, THEN conjunct2,
               THEN conjunct1]
  have k: "generated_description ?s2 = generated_description half_approved"
    unfolding a by (simp add: run_defs h g text_area_def)
  have c': "calls (create_event_page atelier empty_disk (visitor all_three) ?s1) =
     [image_request ''Sunrise Yoga'' (generated_description half_approved) ''1792x1024'']"
    using c h(6) by (simp only: k g(6) if_True)
  have d': "ig_image_url ?s2 = Some ''https://img.example/1024x1024''"
    using d h(6,7) by (simp only: if_True)
  have e': "ig_image_approved ?s2"
    using e h(6) by (simp only:)
  from b c' d' e' show ?thesis by blast
qed

text \<open>
  C2 as stated fails: with both images shown and neither approved, regenerating the
  facebook image also requests the instagram image again, and the instagram reference
  changes.
\<close>

theorem regenerate_facebook_redesigns_unapproved_instagram:
  "stage reviewing = Review_images \<and> get_flag gen_fb reviewing \<and> get_flag gen_ig reviewing \<and>
   ig_image_url reviewing = Some ''https://img.example/1024x1024'' \<and>
   regenerating =
     sess (create_event_page atelier empty_disk (click Regenerate_FB_Image (visitor all_three))
             reviewing) \<and>
   ig_image_url (sess (create_event_page atelier empty_disk (visitor all_three) regenerating)) =
     Some ''https://atelier.example/1024x1024'' \<and>
   calls (create_event_page atelier empty_disk (visitor all_three) regenerating) =
     [image_request ''Sunrise Yoga'' (generated_description reviewing) ''1792x1024'',
      image_request ''Sunrise Yoga'' (generated_description reviewing) ''1024x1024'']"
proof -
  have "regenerating =
     sess (create_event_page atelier empty_disk (click Regenerate_FB_Image (visitor all_three))
             reviewing)"
    by (simp add: regenerating_def)
  moreover have "stage reviewing = Review_images" "get_flag gen_fb reviewing"
    "get_flag gen_ig reviewing" "ig_image_url reviewing = Some ''https://img.example/1024x1024''"
    by (simp_all add: reviewing_eq designing_eq get_flag_def all_three_def)
  moreover have "ig_image_url (sess (create_event_page atelier empty_disk (visitor all_three)
        regenerating)) = Some ''https://atelier.example/1024x1024''"
    by (simp add: regenerating_eq reviewing_eq designing_eq run_defs example_defs request_defs
          atelier_def)
  moreover have "calls (create_event_page atelier empty_disk (visitor all_three) regenerating) =
     [image_request ''Sunrise Yoga'' (generated_description reviewing) ''1792x1024'',
      image_request ''Sunrise Yoga'' (generated_description reviewing) ''1024x1024'']"
    by (simp add: regenerating_eq reviewing_eq designing_eq run_defs example_defs atelier_def)
  ultimately show ?thesis by blast
qed

section \<open>The approval flags\<close>

text \<open>
  What one run may do to the four approval flags: a flag changes only from false to
  true, and only in the run that the approve button of its artifact started.
\<close>

definition approvals_step :: "ui \<Rightarrow> session \<Rightarrow> session \<Rightarrow> bool" where
  "approvals_step ui s s' \<longleftrightarrow>
     (description_approved s' = description_approved s \<or>
        \<not> description_approved s \<and> description_approved s' \<and>
        clicked ui = Some Approve_Description) \<and>
     (fb_image_approved s' = fb_image_approved s \<or>
        \<not> fb_image_approved s \<and> fb_image_approved s' \<and>
        (clicked ui = Some Approve_FB_Image \<or> clicked ui = Some Approve_without_FB_Image)) \<and>
     (ig_image_approved s' = ig_image_approved s \<or>
        \<not> ig_image_approved s \<and> ig_image_approved s' \<and>
        (clicked ui = Some Approve_IG_Image \<or> clicked ui = Some Approve_without_IG_Image)) \<and>
     (newsletter_approved s' = newsletter_approved s \<or>
        \<not> newsletter_approved s \<and> newsletter_approved s' \<and>
        clicked ui = Some Approve_Newsletter)"

lemma approvals_step_refl [simp]: "approvals_step ui s s"
  by (simp add: approvals_step_def)

lemma approvals_step_edited:
  "approvals_step ui (s\<lparr>generated_description := d\<rparr>) s' = approvals_step ui s s'"
  by (simp add: approvals_step_def)

lemma approvals_newsletter_review: "approvals_step ui s (sess (newsletter_review st ui s))"
  by (simp add: newsletter_review_def Let_def split: option.splits)
     (simp add: approvals_step_def)

lemma approvals_newsletter_stage: "approvals_step ui s (sess (newsletter_stage c st ui s))"
  by (simp add: newsletter_stage_def Let_def run_newsletter_composer_agent_def
        approvals_newsletter_review split: option.splits sum.splits)
     (simp add: approvals_step_def)

lemma approvals_images_review: "approvals_step ui s (sess (images_review c st ui s))"
  by (simp add: images_review_def Let_def approvals_newsletter_stage split: option.splits)
     (simp add: approvals_step_def)

lemma approvals_images_stage: "approvals_step ui s (sess (images_stage c st ui s))"
  by (simp add: images_stage_alt approvals_images_review split: option.splits)
     (simp add: approvals_step_def design_facebook_result design_instagram_result)

lemma approvals_description_review: "approvals_step ui s (sess (description_review c st ui s))"
proof (cases "stage s \<in> set [Review_description, Image_Generations, Review_images,
                         Generate_newsletter, Review_newsletter, Final]")
  case False
  then show ?thesis by (simp add: description_review_def approvals_images_stage)
next
  case True
  let ?s1 = "s\<lparr>generated_description := text_area (description_edit ui) (generated_description s)\<rparr>"
  show ?thesis
  proof (cases "\<not> description_approved s \<and> clicked ui = Some Approve_Description")
    case True
    with \<open>stage s \<in> _\<close> show ?thesis
      by (simp add: description_review_def Let_def approvals_step_def)
  next
    case False
    have "approvals_step ui s (sess (images_stage c st ui ?s1))"
      using approvals_images_stage [of ui ?s1 c st] by (simp add: approvals_step_edited)
    with False True show ?thesis
      by (auto simp: description_review_def Let_def)
  qed
qed

lemma approvals_description_stage: "approvals_step ui s (sess (description_stage c st ui s))"
  by (simp add: description_stage_def run_content_writer_agent_def approvals_description_review
        split: option.splits sum.splits)
     (simp add: approvals_step_def)

lemma approvals_app:
  "approvals_step ui s (sess (app env c st ui s)) \<or>
   submitted ui \<and> api_key ui \<noteq> [] \<and> page ui = Create_New_Event \<and>
   \<not> description_approved (sess (app env c st ui s)) \<and>
   \<not> fb_image_approved (sess (app env c st ui s)) \<and>
   \<not> ig_image_approved (sess (app env c st ui s)) \<and>
   \<not> newsletter_approved (sess (app env c st ui s))"
  by (simp add: app_def Let_def create_event_page_def approvals_description_stage
        reset_session_def init_session_state_def split: page.splits)

text \<open>
  C4, as the code has it.  The four approval flags start false.  In a run of the
  script a flag becomes true only by the approve action of its artifact (for an image,
  approve or approve without image).  A flag becomes false again only by a new
  submission of the form, which makes all four false; the regenerate actions, which
  exist for the two images only, change no approval flag.
\<close>

theorem approval_flags_rise_by_approve_and_fall_by_submission:
  "\<not> description_approved init_session_state \<and> \<not> fb_image_approved init_session_state \<and>
   \<not> ig_image_approved init_session_state \<and> \<not> newsletter_approved init_session_state \<and>
   (\<not> description_approved s \<and> description_approved (sess (app env c st ui s)) \<longrightarrow>
      clicked ui = Some Approve_Description) \<and>
   (\<not> fb_image_approved s \<and> fb_image_approved (sess (app env c st ui s)) \<longrightarrow>
      clicked ui = Some Approve_FB_Image \<or> clicked ui = Some Approve_without_FB_Image) \<and>
   (\<not> ig_image_approved s \<and> ig_image_approved (sess (app env c st ui s)) \<longrightarrow>
      clicked ui = Some Approve_IG_Image \<or> clicked ui = Some Approve_without_IG_Image) \<and>
   (\<not> newsletter_approved s \<and> newsletter_approved (sess (app env c st ui s)) \<longrightarrow>
      clicked ui = Some Approve_Newsletter) \<and>
   (description_approved s \<and> \<not> description_approved (sess (app env c st ui s)) \<longrightarrow>
      submitted ui) \<and>
   (fb_image_approved s \<and> \<not> fb_image_approved (sess (app env c st ui s)) \<longrightarrow> submitted ui) \<and>
   (ig_image_approved s \<and> \<not> ig_image_approved (sess (app env c st ui s)) \<longrightarrow> submitted ui) \<and>
   (newsletter_approved s \<and> \<not> newsletter_approved (sess (app env c st ui s)) \<longrightarrow>
      submitted ui) \<and>
   (submitted ui \<and> api_key ui \<noteq> [] \<and> page ui = Create_New_Event \<longrightarrow>
      \<not> description_approved (sess (app env c st ui s)) \<and>
      \<not> fb_image_approved (sess (app env c st ui s)) \<and>
      \<not> ig_image_approved (sess (app env c st ui s)) \<and>
      \<not> newsletter_approved (sess (app env c st ui s))) \<and>
   (\<not> submitted ui \<and>
    (clicked ui = Some Regenerate_FB_Image \<or> clicked ui = Some Regenerate_IG_Image) \<longrightarrow>
      description_approved (sess (app env c st ui s)) = description_approved s \<and>
      fb_image_approved (sess (app env c st ui s)) = fb_image_approved s \<and>
      ig_image_approved (sess (app env c st ui s)) = ig_image_approved s \<and>
      newsletter_approved (sess (app env c st ui s)) = newsletter_approved s)"
proof -
  have init: "\<not> description_approved init_session_state" "\<not> fb_image_approved init_session_state"
    "\<not> ig_image_approved init_session_state" "\<not> newsletter_approved init_session_state"
    by (simp_all add: init_session_state_def)
  have sub: "submitted ui \<and> api_key ui \<noteq> [] \<and> page ui = Create_New_Event \<longrightarrow>
      \<not> description_approved (sess (app env c st ui s)) \<and>
      \<not> fb_image_approved (sess (app env c st ui s)) \<and>
      \<not> ig_image_approved (sess (app env c st ui s)) \<and>
      \<not> newsletter_approved (sess (app env c st ui s))"
    by (simp add: app_def Let_def create_event_page_def reset_session_def init_session_state_def)
  from approvals_app [of ui s env c st] show ?thesis
  proof
    assume "approvals_step ui s (sess (app env c st ui s))"
    with init sub show ?thesis
      unfolding approvals_step_def by (intro conjI impI) auto
  next
    assume a: "submitted ui \<and> api_key ui \<noteq> [] \<and> page ui = Create_New_Event \<and>
      \<not> description_approved (sess (app env c st ui s)) \<and>
      \<not> fb_image_approved (sess (app env c st ui s)) \<and>
      \<not> ig_image_approved (sess (app env c st ui s)) \<and>
      \<not> newsletter_approved (sess (app env c st ui s))"
    with init show ?thesis by (intro conjI impI) auto
  qed
qed

theorem approval_flags_rise_by_approve_and_fall_by_submission_witness:
  "\<not> fb_image_approved reviewing \<and>
   fb_image_approved (sess (app Map.empty studio empty_disk
      (click Approve_FB_Image (visitor all_three)) reviewing)) \<and>
   (clicked (click Approve_FB_Image (visitor all_three)) = Some Approve_FB_Image \<or>
    clicked (click Approve_FB_Image (visitor all_three)) = Some Approve_without_FB_Image)"
proof -
  have a: "\<not> fb_image_approved reviewing"
    by (simp add: reviewing_eq designing_eq)
  have b: "fb_image_approved (sess (app Map.empty studio empty_disk
      (click Approve_FB_Image (visitor all_three)) reviewing))"
    by (simp add: reviewing_eq designing_eq run_defs example_defs)
  from approval_flags_rise_by_approve_and_fall_by_submission
         [where s = reviewing and env = Map.empty and c = studio and st = empty_disk
            and ui = "click Approve_FB_Image (visitor all_three)"] a b
  show ?thesis by blast
qed

text \<open>
  C4 as stated fails: a new submission, with no regenerate action, takes the approved
  description back to not approved.
\<close>

theorem submission_resets_approval_without_regenerate:
  "description_approved designing \<and>
   clicked (submit (visitor all_three)) = None \<and>
   \<not> description_approved (sess (app Map.empty studio empty_disk (submit (visitor all_three))
        designing))"
  by (simp add: designing_eq run_defs example_defs)

section \<open>A run that asks for the description only\<close>

lemma writer_result:
  "(case x of Inl e \<Rightarrow> s | Inr d \<Rightarrow> s\<lparr>generated_description := d\<rparr>) =
     s\<lparr>generated_description := (case x of Inl e \<Rightarrow> generated_description s | Inr d \<Rightarrow> d)\<rparr>"
  by (cases x) simp_all

text \<open>
  C5.  When the form is submitted with all three request flags false (from any earlier
  state of the session), the interaction and the reruns it causes end in the stage
  \<open>review_description\<close> after exactly one description request.  There the controller
  waits: any interaction other than approving the description (or submitting the form
  anew) leaves the stage as it is and sends nothing.  Approving the description then
  leads, with no further request, to the stage \<open>final\<close> with every gate passed: no
  image request and no newsletter request is ever sent.
\<close>

theorem description_only_run_reaches_final:
  assumes "api_key ui \<noteq> []" and "page ui = Create_New_Event"
    and "\<not> gen_fb (form ui)" and "\<not> gen_ig (form ui)" and "\<not> gen_news (form ui)"
    and r1: "r1 = interact env c (ui\<lparr>submitted := True\<rparr>) r0"
    and r2: "r2 = interact env c (ui\<lparr>submitted := False, clicked := Some Approve_Description\<rparr>) r1"
  shows "stage (sess r1) = Review_description \<and> flow r1 = Done \<and>
         \<not> description_approved (sess r1) \<and>
         calls r1 = calls r0 @ [content_writer_request (title (form ui)) (facilitators (form ui))
                                  (short_desc (form ui))] \<and>
         stage (sess r2) = Final \<and> flow r2 = Done \<and> all_approved (sess r2) \<and>
         calls r2 = calls r1 \<and>
         (\<not> submitted ui' \<and> clicked ui' \<noteq> Some Approve_Description \<longrightarrow>
            stage (sess (interact env' c' ui' r1)) = Review_description \<and>
            calls (interact env' c' ui' r1) = calls r1)"
proof -
  have a: "stage (sess r1) = Review_description \<and> flow r1 = Done \<and>
         \<not> description_approved (sess r1) \<and> user_inputs (sess r1) = Some (form ui) \<and>
         \<not> fb_image_approved (sess r1) \<and> \<not> ig_image_approved (sess r1) \<and>
         calls r1 = calls r0 @ [content_writer_request (title (form ui)) (facilitators (form ui))
                                  (short_desc (form ui))]"
    unfolding r1 using assms(1,2)
    by (simp add: interact_def settle.simps app_def create_event_page_def description_stage_def
          description_review_def images_stage_def images_review_def newsletter_stage_def
          newsletter_review_def final_stage_def run_content_writer_agent_def writer_result
          reset_session_def init_session_state_def finish_def then_run_def idle_def Let_def)
  have b: "stage (sess r2) = Final \<and> flow r2 = Done \<and> all_approved (sess r2) \<and>
         calls r2 = calls r1"
    unfolding r2 using a assms(1-5)
    by (simp add: interact_def settle.simps app_def create_event_page_def description_stage_def
          description_review_def images_stage_def images_review_def newsletter_stage_def
          newsletter_review_def final_stage_def design_facebook_def design_instagram_def
          all_approved_def get_flag_def finish_def then_run_def idle_def Let_def)
  have g: "stage (sess (interact env' c' ui' r1)) = Review_description \<and>
            calls (interact env' c' ui' r1) = calls r1"
    if "\<not> submitted ui'" "clicked ui' \<noteq> Some Approve_Description"
  proof -
    let ?r = "app env' c' (db r1) ui' (sess r1)"
    have k: "flow ?r = Done \<and> stage (sess ?r) = Review_description \<and> calls ?r = []"
      using a that
      by (simp add: app_def create_event_page_def description_stage_def
            description_review_def images_stage_def images_review_def newsletter_stage_def
            newsletter_review_def final_stage_def finish_def Let_def split: page.splits)
    have "interact env' c' ui' r1 = then_run r1 ?r"
      unfolding interact_def by (subst settle.simps) (simp add: k)
    with k show ?thesis by simp
  qed
  from a b g show ?thesis by blast
qed

theorem description_only_run_reaches_final_witness:
  "stage (sess (interact Map.empty studio
       ((visitor sunrise_yoga)\<lparr>submitted := False, clicked := Some Approve_Description\<rparr>)
       (interact Map.empty studio ((visitor sunrise_yoga)\<lparr>submitted := True\<rparr>)
          (fresh empty_disk)))) = Final \<and>
   calls (interact Map.empty studio
       ((visitor sunrise_yoga)\<lparr>submitted := False, clicked := Some Approve_Description\<rparr>)
       (interact Map.empty studio ((visitor sunrise_yoga)\<lparr>submitted := True\<rparr>)
          (fresh empty_disk))) =
     [content_writer_request ''Sunrise Yoga'' ''Ana'' []]"
proof -
  have h: "api_key (visitor sunrise_yoga) \<noteq> []" "page (visitor sunrise_yoga) = Create_New_Event"
    "\<not> gen_fb (form (visitor sunrise_yoga))" "\<not> gen_ig (form (visitor sunrise_yoga))"
    "\<not> gen_news (form (visitor sunrise_yoga))"
    by (simp_all add: example_defs)
  have f: "calls (fresh empty_disk) = []"
    "title (form (visitor sunrise_yoga)) = ''Sunrise Yoga''"
    "facilitators (form (visitor sunrise_yoga)) = ''Ana''"
    "short_desc (form (visitor sunrise_yoga)) = []"
    by (simp_all add: fresh_def example_defs)
  from description_only_run_reaches_final [OF h refl refl, where env = Map.empty
         and c = studio and ?r0.0 = "fresh empty_disk"] f
  show ?thesis by simp
qed

section \<open>The clean-up of the composed newsletter\<close>

lemma partition_absent:
  "sep \<noteq> [] \<Longrightarrow> hd sep \<notin> set s \<Longrightarrow> partition_str sep s = None"
proof (induction s)
  case Nil
  then show ?case by simp
next
  case (Cons c cs)
  from Cons.prems have "take (length sep) (c # cs) \<noteq> sep"
    by (cases sep) auto
  with Cons show ?case by simp
qed

lemma partition_head: "sep \<noteq> [] \<Longrightarrow> partition_str sep (sep @ rest) = Some ([], rest)"
  by (cases sep) simp_all

lemma partition_first:
  "sep \<noteq> [] \<Longrightarrow> hd sep \<notin> set pre \<Longrightarrow> partition_str sep (pre @ sep @ rest) = Some (pre, rest)"
proof (induction pre)
  case Nil
  then show ?case by (simp add: partition_head)
next
  case (Cons c cs)
  from Cons.prems have "take (length sep) ((c # cs) @ sep @ rest) \<noteq> sep"
    by (cases sep) auto
  with Cons show ?case by simp
qed

lemma split_first:
  "sep \<noteq> [] \<Longrightarrow> hd sep \<notin> set pre \<Longrightarrow> split sep (pre @ sep @ rest) = pre # split sep rest"
  by (subst split.simps) (simp add: partition_first)

lemma item_split_0:
  "sep \<noteq> [] \<Longrightarrow> item (split sep s) 0 =
     Inr (case partition_str sep s of None \<Rightarrow> s | Some (before, after) \<Rightarrow> before)"
  by (subst split.simps) (simp add: item_def split: option.splits)

lemma item_Cons_1: "item (x # xs) 1 = item xs 0"
  by (simp add: item_def)

lemma two_ticks:
  assumes "CHR 0x60 \<notin> set rest"
  shows "partition_str ''```html'' (CHR 0x60 # CHR 0x60 # rest) = None"
proof -
  have n: "partition_str ''```html'' rest = None"
    by (rule partition_absent) (use assms in simp_all)
  show ?thesis
  proof (cases rest)
    case Nil
    then show ?thesis by simp
  next
    case (Cons x xs)
    with assms have "x \<noteq> CHR 0x60" by auto
    with n Cons show ?thesis by simp
  qed
qed

lemma fence_prefix:
  assumes "CHR 0x60 \<notin> set inner" and "CHR 0x60 \<notin> set rest"
    and "partition_str ''```html'' (inner @ ''```'' @ rest) = Some (b, a)"
  shows "b = inner"
  using assms(1,3)
proof (induction inner arbitrary: b)
  case Nil
  with two_ticks [OF assms(2)] show ?case
    by (simp split: if_splits)
next
  case (Cons c cs)
  from Cons.prems(1) have c: "c \<noteq> CHR 0x60" "CHR 0x60 \<notin> set cs" by auto
  with Cons.prems(2) obtain b' where "partition_str ''```html'' (cs @ ''```'' @ rest) = Some (b', a)"
    and "b = c # b'"
    by (auto split: option.splits)
  with Cons.IH [OF c(2)] show ?case by simp
qed

lemma fenced_html:
  assumes "CHR 0x60 \<notin> set pre" and "CHR 0x60 \<notin> set inner" and "CHR 0x60 \<notin> set rest"
  shows "clean_html (pre @ ''```html'' @ inner @ ''```'' @ rest) = Inr (strip inner)"
proof -
  let ?x = "inner @ ''```'' @ rest"
  let ?p = "case partition_str ''```html'' ?x of None \<Rightarrow> ?x | Some (before, after) \<Rightarrow> before"
  have pf: "partition_str ''```html'' (pre @ ''```html'' @ ?x) = Some (pre, ?x)"
    by (rule partition_first) (use assms(1) in simp_all)
  have sf: "split ''```html'' (pre @ ''```html'' @ ?x) = pre # split ''```html'' ?x"
    by (rule split_first) (use assms(1) in simp_all)
  have 1: "contains ''```html'' (pre @ ''```html'' @ ?x)"
    unfolding contains_def pf by simp
  have 2: "item (split ''```html'' (pre @ ''```html'' @ ?x)) 1 = Inr ?p"
    unfolding sf item_Cons_1 by (rule item_split_0) simp
  have 3: "item (split ''```'' ?p) 0 = Inr inner"
  proof (cases "partition_str ''```html'' ?x")
    case None
    have "partition_str ''```'' ?x = Some (inner, rest)"
      by (rule partition_first) (use assms(2) in simp_all)
    with None show ?thesis by (simp add: item_split_0)
  next
    case (Some q)
    obtain b a where q: "q = (b, a)" by (cases q)
    with Some fence_prefix [OF assms(2,3)] have "b = inner" by simp
    moreover have "partition_str ''```'' inner = None"
      by (rule partition_absent) (use assms(2) in simp_all)
    ultimately show ?thesis using Some q by (simp add: item_split_0)
  qed
  from 1 2 3 show ?thesis
    unfolding clean_html_def by (simp only: if_True sum.case)
qed

lemma newsletter_html_kept:
  assumes "reachable s" and "\<not> submitted ui" and "rank (stage s) \<le> 4"
  shows "newsletter_html (sess (create_event_page c st ui s)) = newsletter_html s"
proof (cases "stage s = Initial")
  case True
  with assms(2) show ?thesis by (simp add: run_initial)
next
  case False
  with assms(1) obtain u where u: "user_inputs s = Some u" by (auto elim: reachable_inputs)
  show ?thesis
  proof (cases "stage s")
    case Initial
    with False show ?thesis by simp
  next
    case Generate_description
    with u assms(2) show ?thesis
      by (simp add: run_generate_description writer_result)
  next
    case Review_description
    with assms(2) show ?thesis by (simp add: run_review_description)
  next
    case Image_Generations
    with assms(1) have "description_approved s" by (simp add: reachable_description_approved)
    with Image_Generations u assms(2) show ?thesis
      by (simp add: run_image_generations design_facebook_result design_instagram_result)
  next
    case Review_images
    with assms(1) have "description_approved s" by (simp add: reachable_description_approved)
    with Review_images u assms(2) show ?thesis
      by (simp add: run_review_images Let_def)
  next
    case Generate_newsletter
    with assms(3) show ?thesis by simp
  next
    case Review_newsletter
    with assms(3) show ?thesis by simp
  next
    case Final
    with assms(3) show ?thesis by simp
  qed
qed

lemma edge_rank: "edge a b \<Longrightarrow> rank b \<le> 5 \<Longrightarrow> rank a \<le> 4"
  by (cases a; cases b) (simp_all add: edge_def)

text \<open>Until the newsletter is composed, the newsletter body is empty.\<close>

lemma reachable_unset:
  "reachable s \<Longrightarrow> rank (stage s) \<le> 5 \<Longrightarrow> newsletter_html s = []"
proof (induction rule: reachable.induct)
  case start
  then show ?case by (simp add: init_session_state_def)
next
  case (run s env c st ui)
  let ?st = "initialize_database (DB_FILE env) st"
  from sess_app [of env c st ui s] show ?case
  proof
    assume "sess (app env c st ui s) = s"
    with run show ?thesis by simp
  next
    assume a: "sess (app env c st ui s) = sess (create_event_page c ?st ui s)"
    show ?thesis
    proof (cases "submitted ui")
      case True
      then show ?thesis
        by (simp add: a create_event_page_def reset_session_def init_session_state_def)
    next
      case False
      from stage_edges [OF run.hyps False, of c ?st] run.prems a
      have r: "rank (stage s) \<le> 4" by (auto dest: edge_rank)
      from newsletter_html_kept [OF run.hyps False r, of c ?st] run.IH r a
      show ?thesis by simp
    qed
  qed
qed

text \<open>
  C7, as the code has it.  When the provider's text holds the marker \<open>```html\<close>, a
  closing \<open>```\<close> after it and no other backtick, the stored newsletter body is what
  stands between the two markers, stripped of surrounding whitespace.  A text without
  the marker \<open>```html\<close> is stored whole, stripped of surrounding whitespace, so a
  fence without the \<open>html\<close> tag stays in the body.  When the call raises, returns no
  choice or returns no text, the session is left as it was, and at this stage the
  newsletter body is still empty.
\<close>

theorem newsletter_body_is_cleaned_of_html_fences:
  assumes "CHR 0x60 \<notin> set pre" and "CHR 0x60 \<notin> set inner" and "CHR 0x60 \<notin> set rest"
  shows
    "(c (newsletter_request t d img) =
        Inr (Some (pre @ ''```html'' @ inner @ ''```'' @ rest) # others) \<longrightarrow>
      run_newsletter_composer_agent c t d img s =
        (s\<lparr>newsletter_html := strip inner\<rparr>, [newsletter_request t d img])) \<and>
     (c (newsletter_request t d img) = Inr (Some answer # others) \<and> \<not> contains ''```html'' answer \<longrightarrow>
      run_newsletter_composer_agent c t d img s =
        (s\<lparr>newsletter_html := strip answer\<rparr>, [newsletter_request t d img])) \<and>
     (c (newsletter_request t d img) = Inl e \<or> c (newsletter_request t d img) = Inr [] \<or>
      c (newsletter_request t d img) = Inr (None # others) \<longrightarrow>
      run_newsletter_composer_agent c t d img s = (s, [newsletter_request t d img])) \<and>
     (reachable s \<and> stage s = Generate_newsletter \<longrightarrow> newsletter_html s = [])"
proof (intro conjI impI)
  assume "c (newsletter_request t d img) =
        Inr (Some (pre @ ''```html'' @ inner @ ''```'' @ rest) # others)"
  then show "run_newsletter_composer_agent c t d img s =
        (s\<lparr>newsletter_html := strip inner\<rparr>, [newsletter_request t d img])"
    by (simp add: run_newsletter_composer_agent_def compose_newsletter_def item_def
          fenced_html [OF assms, simplified])
next
  assume "c (newsletter_request t d img) = Inr (Some answer # others) \<and> \<not> contains ''```html'' answer"
  then show "run_newsletter_composer_agent c t d img s =
        (s\<lparr>newsletter_html := strip answer\<rparr>, [newsletter_request t d img])"
    by (simp add: run_newsletter_composer_agent_def compose_newsletter_def item_def clean_html_def)
next
  assume "c (newsletter_request t d img) = Inl e \<or> c (newsletter_request t d img) = Inr [] \<or>
      c (newsletter_request t d img) = Inr (None # others)"
  then show "run_newsletter_composer_agent c t d img s = (s, [newsletter_request t d img])"
    by (auto simp: run_newsletter_composer_agent_def compose_newsletter_def item_def)
next
  assume "reachable s \<and> stage s = Generate_newsletter"
  then show "newsletter_html s = []" by (simp add: reachable_unset)
qed

theorem newsletter_body_is_cleaned_of_html_fences_witness:
  "run_newsletter_composer_agent studio ''Sunrise Yoga'' (generated_description illustrated)
      (fb_image_url illustrated) illustrated =
     (illustrated\<lparr>newsletter_html := ''<h1>Sunrise Yoga</h1>''\<rparr>,
      [newsletter_request ''Sunrise Yoga'' (generated_description illustrated)
         (fb_image_url illustrated)])"
proof -
  have a: "CHR 0x60 \<notin> set []" "CHR 0x60 \<notin> set ''\<newline><h1>Sunrise Yoga</h1>\<newline>''"
    by simp_all
  have b: "studio (newsletter_request ''Sunrise Yoga'' (generated_description illustrated)
             (fb_image_url illustrated)) =
           Inr (Some ([] @ ''```html'' @ ''\<newline><h1>Sunrise Yoga</h1>\<newline>'' @ ''```'' @ []) # [])"
    by (simp add: studio_def newsletter_request_def)
  have c: "strip ''\<newline><h1>Sunrise Yoga</h1>\<newline>'' = ''<h1>Sunrise Yoga</h1>''"
    by (simp add: strip_def is_space_def)
  from newsletter_body_is_cleaned_of_html_fences [OF a(1) a(2) a(1),
         where c = studio and t = "''Sunrise Yoga''" and d = "generated_description illustrated"
           and img = "fb_image_url illustrated" and others = "[]" and s = illustrated
           and answer = "[]" and e = APIError] b
  show ?thesis by (simp only: c)
qed

text \<open>
  C7 as stated fails: a response wrapped in plain code-fence markers is stored with the
  markers.
\<close>

theorem bare_fence_is_kept:
  "newsletter_html (sess (create_event_page bare_fence empty_disk (visitor all_three) illustrated))
     = ''```\<newline><p>Namaste</p>\<newline>```''"
  by (simp add: illustrated_eq reviewing_eq designing_eq run_defs example_defs request_defs
        py_or_def bare_fence_def clean_html_def contains_def strip_def is_space_def)

section \<open>The database file\<close>

text \<open>
  What the three database operations do to the files: the path resolution is never
  changed; \<open>initialize_database\<close> touches the file that its path names and no other,
  \<open>save_event_to_db\<close> and \<open>view_events_page\<close> the file that \<open>'events.db'\<close> names.
\<close>

lemma finished_eq:
  "finished = init_session_state\<lparr>stage := Final, description_approved := True,
     user_inputs := Some sunrise_yoga\<rparr>"
  by (simp add: finished_def run_defs example_defs request_defs)

lemma reachable_finished: "reachable finished"
  unfolding finished_def by (intro reachable_replay reachable.start)

lemma realpath_connect [simp]: "realpath (connect path st) = realpath st"
  by (simp add: connect_def write_file_def split: option.splits)

lemma realpath_initialize [simp]: "realpath (initialize_database f st) = realpath st"
  by (simp add: initialize_database_def Let_def write_file_def split: option.splits)

lemma realpath_save [simp]: "realpath (fst (save_event_to_db now st s)) = realpath st"
  by (simp add: save_event_to_db_def Let_def write_file_def split: option.splits)

lemma files_connect:
  "files (connect path st) f =
     (if f = realpath st path
      then Some (case files st f of None \<Rightarrow> \<lparr>events = None\<rparr> | Some d \<Rightarrow> d)
      else files st f)"
  by (simp add: connect_def write_file_def split: option.splits)

lemma files_initialize:
  "files (initialize_database db_file st) f =
     (if f = realpath st db_file
      then Some (case files st f of
                   None \<Rightarrow> \<lparr>events = Some \<lparr>table_rows = [], last_id = 0\<rparr>\<rparr>
                 | Some d \<Rightarrow>
                     (case events d of
                        None \<Rightarrow> d\<lparr>events := Some \<lparr>table_rows = [], last_id = 0\<rparr>\<rparr>
                      | Some t \<Rightarrow> d))
      else files st f)"
  by (simp add: initialize_database_def Let_def files_connect write_file_def
        split: option.splits)

lemma files_save:
  "files (fst (save_event_to_db now st s)) f =
     (if f = realpath st ''events.db''
      then Some (case files st f of
                   None \<Rightarrow> \<lparr>events = None\<rparr>
                 | Some d \<Rightarrow>
                     (case events d of
                        None \<Rightarrow> d
                      | Some t \<Rightarrow>
                          (case user_inputs s of
                             None \<Rightarrow> d
                           | Some u \<Rightarrow>
                               d\<lparr>events := Some
                                    \<lparr>table_rows =
                                       table_rows t @ [event_record (last_id t + 1) now u s],
                                     last_id = last_id t + 1\<rparr>\<rparr>)))
      else files st f)"
  by (simp add: save_event_to_db_def Let_def files_connect write_file_def
        split: option.splits)

lemma save_returns: "user_inputs s = Some u \<Longrightarrow> snd (save_event_to_db now st s) = None"
  by (simp add: save_event_to_db_def Let_def split: option.splits)

lemma view_shows:
  "view_events_page st =
     (connect ''events.db'' st,
      (case files st (realpath st ''events.db'') of
         None \<Rightarrow> Database_error
       | Some d \<Rightarrow>
           (case events d of
              None \<Rightarrow> Database_error
            | Some t \<Rightarrow>
                (if table_rows t = [] then No_events
                 else Events (newest_first (table_rows t))))))"
  by (simp add: view_events_page_def Let_def files_connect split: option.splits)

lemma newest_first_order:
  "set (newest_first rows) = set rows"
  "length (newest_first rows) = length rows"
  "sorted (map row_created_at (rev (newest_first rows)))"
  "filter (\<lambda>r. row_created_at r = k) (newest_first rows) = filter (\<lambda>r. row_created_at r = k) rows"
proof -
  show "set (newest_first rows) = set rows" by (simp add: newest_first_def)
  show "length (newest_first rows) = length rows" by (simp add: newest_first_def)
  show "sorted (map row_created_at (rev (newest_first rows)))" by (simp add: newest_first_def)
  have "filter (\<lambda>r. row_created_at r = k) (sort_key row_created_at (rev rows)) =
        filter (\<lambda>r. row_created_at r = k) (rev rows)"
    by (rule sort_key_stable)
  then show "filter (\<lambda>r. row_created_at r = k) (newest_first rows) =
      filter (\<lambda>r. row_created_at r = k) rows"
    by (simp add: newest_first_def rev_filter [symmetric])
qed

lemma db_final_stage:
  "db (final_stage st ui s) = st \<or> db (final_stage st ui s) = fst (save_event_to_db (clock ui) st s)"
  by (simp add: final_stage_def split: prod.splits option.splits)

lemma db_newsletter_review:
  "db (newsletter_review st ui s) = st \<or>
   (\<exists>s'. db (newsletter_review st ui s) = fst (save_event_to_db (clock ui) st s'))"
  using db_final_stage [of st ui s]
        db_final_stage [of st ui "s\<lparr>newsletter_html := text_area (newsletter_edit ui) (newsletter_html s)\<rparr>"]
  by (auto simp: newsletter_review_def Let_def split: option.splits)

lemma db_newsletter_stage:
  "db (newsletter_stage c st ui s) = st \<or>
   (\<exists>s'. db (newsletter_stage c st ui s) = fst (save_event_to_db (clock ui) st s'))"
  using db_newsletter_review [of st ui s]
  by (auto simp: newsletter_stage_def Let_def split: option.splits prod.splits)

lemma db_images_review:
  "db (images_review c st ui s) = st \<or>
   (\<exists>s'. db (images_review c st ui s) = fst (save_event_to_db (clock ui) st s'))"
  using db_newsletter_stage [of c st ui s]
  by (auto simp: images_review_def Let_def split: option.splits)

lemma db_images_stage:
  "db (images_stage c st ui s) = st \<or>
   (\<exists>s'. db (images_stage c st ui s) = fst (save_event_to_db (clock ui) st s'))"
  using db_images_review [of c st ui s]
  by (auto simp: images_stage_alt split: option.splits)

lemma db_description_review:
  "db (description_review c st ui s) = st \<or>
   (\<exists>s'. db (description_review c st ui s) = fst (save_event_to_db (clock ui) st s'))"
  using db_images_stage [of c st ui s]
        db_images_stage [of c st ui "s\<lparr>generated_description := text_area (description_edit ui) (generated_description s)\<rparr>"]
  by (auto simp: description_review_def Let_def)

lemma db_create_event_page:
  "db (create_event_page c st ui s) = st \<or>
   (\<exists>s'. db (create_event_page c st ui s) = fst (save_event_to_db (clock ui) st s'))"
  using db_description_review [of c st ui s]
  by (auto simp: create_event_page_def description_stage_def split: option.splits prod.splits)

lemma configured_file_is_left_as_initialized:
  assumes "realpath st (DB_FILE env) \<noteq> realpath st ''events.db''" and "api_key ui \<noteq> []"
  shows "files (db (app env c st ui s)) (realpath st (DB_FILE env)) =
           files (initialize_database (DB_FILE env) st) (realpath st (DB_FILE env))"
proof (cases "page ui")
  case Create_New_Event
  from db_create_event_page [of c "initialize_database (DB_FILE env) st" ui s] assms
  show ?thesis
    by (auto simp: app_def Let_def Create_New_Event files_save)
next
  case View_Past_Events
  with assms show ?thesis by (simp add: app_def Let_def view_shows files_connect)
qed

lemma save_run:
  assumes "reachable s" and "stage s = Final" and "clicked ui = Some Save_Event_to_Database"
    and "\<not> submitted ui" and "api_key ui \<noteq> []" and "page ui = Create_New_Event"
  shows "db (app env c st ui s) =
           fst (save_event_to_db (clock ui) (initialize_database (DB_FILE env) st)
                  (sess (app env c st ui s)))"
    and "flow (app env c st ui s) = Done"
proof -
  let ?st = "initialize_database (DB_FILE env) st"
  from assms(1,2) obtain u where u: "user_inputs s = Some u" by (auto elim: reachable_inputs)
  from assms(2) have r: "6 \<le> rank (stage s)" by simp
  have a: "app env c st ui s = newsletter_review ?st ui (edited ui s)"
    using assms(5,6) run_after_newsletter [OF assms(1) r u assms(4), of c ?st]
    by (simp add: app_def Let_def)
  from reachable_gate_inv [OF assms(1)] assms(2) u have g: "all_approved s"
    by (simp add: gate_inv_def all_approved_def get_flag_def)
  have f: "final_stage ?st ui x = finish Done (fst (save_event_to_db (clock ui) ?st x)) [] x"
    if "stage x = Final" "all_approved x" "user_inputs x = Some u" for x
    using that assms(3) save_returns [OF that(3), of "clock ui" ?st]
    by (cases "save_event_to_db (clock ui) ?st x") (auto simp: final_stage_def)
  have "newsletter_review ?st ui (edited ui s) =
      finish Done (fst (save_event_to_db (clock ui) ?st (sess (newsletter_review ?st ui (edited ui s)))))
        [] (sess (newsletter_review ?st ui (edited ui s)))"
    using assms(2,3) u g
    by (simp add: newsletter_review_def Let_def f all_approved_def get_flag_def)
  then show "db (app env c st ui s) =
           fst (save_event_to_db (clock ui) ?st (sess (app env c st ui s)))"
    and "flow (app env c st ui s) = Done"
    unfolding a by (metis sess_finish(4), metis sess_finish(2))
qed

lemma user_inputs_newsletter_review:
  "user_inputs (sess (newsletter_review st ui s)) = user_inputs s"
  by (simp add: newsletter_review_def Let_def split: option.splits)

lemma save_run_inputs:
  assumes "reachable s" and "stage s = Final" and "user_inputs s = Some u"
    and "\<not> submitted ui" and "api_key ui \<noteq> []" and "page ui = Create_New_Event"
  shows "user_inputs (sess (app env c st ui s)) = Some u"
proof -
  from assms(2) have r: "6 \<le> rank (stage s)" by simp
  have "app env c st ui s =
      newsletter_review (initialize_database (DB_FILE env) st) ui (edited ui s)"
    using assms(5,6)
      run_after_newsletter [OF assms(1) r assms(3,4), of c "initialize_database (DB_FILE env) st"]
    by (simp add: app_def Let_def)
  then show ?thesis by (simp add: user_inputs_newsletter_review assms(3))
qed

lemma view_run:
  "api_key ui \<noteq> [] \<Longrightarrow> page ui = View_Past_Events \<Longrightarrow>
     app env c st ui s =
       finish Done (connect ''events.db'' (initialize_database (DB_FILE env) st)) [] s"
  by (simp add: app_def Let_def view_shows)

lemma used_disk_eq:
  "used_disk =
     \<lparr>realpath = (\<lambda>path. path),
      files = [''events.db'' \<mapsto> \<lparr>events = Some \<lparr>table_rows = [], last_id = 0\<rparr>\<rparr>]\<rparr>"
  by (simp add: used_disk_def run_defs example_defs)

lemma yoga_row_eq:
  "event_record (Suc 0) (clock (visitor sunrise_yoga)) sunrise_yoga finished = yoga_row"
  by (simp add: event_record_def yoga_row_def finished_eq example_defs isoformat_def time_defs
        init_session_state_def)

text \<open>
  C10, as the code has it.  \<open>DB_FILE\<close> is the environment variable of that name, or
  \<open>events.db\<close> without it, and only the initialization of the table uses it: it
  creates the file that \<open>DB_FILE\<close> names, and the table in it, when they are missing,
  and changes no other file.  Saving and browsing connect to the path \<open>'events.db'\<close>
  whatever \<open>DB_FILE\<close> is: saving creates that file when it is missing, appends the
  record of the event under the next id when the file has the table, and saves nothing
  when it has none; browsing shows a database error without the table, a notice
  without records, and otherwise every record, the newest first and records of the
  same time in the order of their insertion.  In a run of the script: a run without
  an API key touches no file; a run on the browse page initializes and connects; when
  \<open>DB_FILE\<close> names another file than \<open>'events.db'\<close> does, no run changes the file
  initialized beyond its initialization; and the run that saves from the final stage
  ends normally with the record in the file that \<open>'events.db'\<close> names, if that file
  has the table at all.
\<close>

theorem saving_and_browsing_use_events_db_and_only_initialization_uses_DB_FILE:
  "DB_FILE env = (case env ''DB_FILE'' of None \<Rightarrow> ''events.db'' | Some v \<Rightarrow> v) \<and>
   files (initialize_database (DB_FILE env) st) f =
     (if f = realpath st (DB_FILE env)
      then Some (case files st f of
                   None \<Rightarrow> \<lparr>events = Some \<lparr>table_rows = [], last_id = 0\<rparr>\<rparr>
                 | Some d \<Rightarrow>
                     (case events d of
                        None \<Rightarrow> d\<lparr>events := Some \<lparr>table_rows = [], last_id = 0\<rparr>\<rparr>
                      | Some t \<Rightarrow> d))
      else files st f) \<and>
   files (fst (save_event_to_db now st s)) f =
     (if f = realpath st ''events.db''
      then Some (case files st f of
                   None \<Rightarrow> \<lparr>events = None\<rparr>
                 | Some d \<Rightarrow>
                     (case events d of
                        None \<Rightarrow> d
                      | Some t \<Rightarrow>
                          (case user_inputs s of
                             None \<Rightarrow> d
                           | Some u \<Rightarrow>
                               d\<lparr>events := Some
                                    \<lparr>table_rows =
                                       table_rows t @ [event_record (last_id t + 1) now u s],
                                     last_id = last_id t + 1\<rparr>\<rparr>)))
      else files st f) \<and>
   view_events_page st =
     (connect ''events.db'' st,
      (case files st (realpath st ''events.db'') of
         None \<Rightarrow> Database_error
       | Some d \<Rightarrow>
           (case events d of
              None \<Rightarrow> Database_error
            | Some t \<Rightarrow>
                (if table_rows t = [] then No_events
                 else Events (newest_first (table_rows t)))))) \<and>
   files (connect ''events.db'' st) f =
     (if f = realpath st ''events.db''
      then Some (case files st f of None \<Rightarrow> \<lparr>events = None\<rparr> | Some d \<Rightarrow> d)
      else files st f) \<and>
   set (newest_first rows) = set rows \<and>
   length (newest_first rows) = length rows \<and>
   sorted (map row_created_at (rev (newest_first rows))) \<and>
   filter (\<lambda>r. row_created_at r = k) (newest_first rows) =
     filter (\<lambda>r. row_created_at r = k) rows \<and>
   (api_key ui = [] \<longrightarrow> db (app env c st ui s) = st) \<and>
   (api_key ui \<noteq> [] \<and> page ui = View_Past_Events \<longrightarrow>
      db (app env c st ui s) = connect ''events.db'' (initialize_database (DB_FILE env) st) \<and>
      sess (app env c st ui s) = s) \<and>
   (api_key ui \<noteq> [] \<and> realpath st (DB_FILE env) \<noteq> realpath st ''events.db'' \<longrightarrow>
      files (db (app env c st ui s)) (realpath st (DB_FILE env)) =
        files (initialize_database (DB_FILE env) st) (realpath st (DB_FILE env))) \<and>
   (reachable s \<and> stage s = Final \<and> user_inputs s = Some u \<and>
    clicked ui = Some Save_Event_to_Database \<and> \<not> submitted ui \<and> api_key ui \<noteq> [] \<and>
    page ui = Create_New_Event \<longrightarrow>
      flow (app env c st ui s) = Done \<and>
      db (app env c st ui s) =
        fst (save_event_to_db (clock ui) (initialize_database (DB_FILE env) st)
               (sess (app env c st ui s))) \<and>
      user_inputs (sess (app env c st ui s)) = Some u \<and>
      files (db (app env c st ui s)) (realpath st ''events.db'') =
        Some (case files (initialize_database (DB_FILE env) st) (realpath st ''events.db'') of
                None \<Rightarrow> \<lparr>events = None\<rparr>
              | Some d \<Rightarrow>
                  (case events d of
                     None \<Rightarrow> d
                   | Some t \<Rightarrow>
                       d\<lparr>events := Some
                            \<lparr>table_rows =
                               table_rows t @
                                 [event_record (last_id t + 1) (clock ui) u
                                    (sess (app env c st ui s))],
                             last_id = last_id t + 1\<rparr>\<rparr>)))"
proof -
  have 1: "DB_FILE env = (case env ''DB_FILE'' of None \<Rightarrow> ''events.db'' | Some v \<Rightarrow> v)"
    by (simp add: DB_FILE_def)
  have 2: "api_key ui = [] \<longrightarrow> db (app env c st ui s) = st"
    by (simp add: app_def)
  have 3: "api_key ui \<noteq> [] \<and> page ui = View_Past_Events \<longrightarrow>
      db (app env c st ui s) = connect ''events.db'' (initialize_database (DB_FILE env) st) \<and>
      sess (app env c st ui s) = s"
    by (simp add: view_run)
  have 4: "api_key ui \<noteq> [] \<and> realpath st (DB_FILE env) \<noteq> realpath st ''events.db'' \<longrightarrow>
      files (db (app env c st ui s)) (realpath st (DB_FILE env)) =
        files (initialize_database (DB_FILE env) st) (realpath st (DB_FILE env))"
    using configured_file_is_left_as_initialized [of st env ui c s] by blast
  have 5: "flow (app env c st ui s) = Done \<and>
      db (app env c st ui s) =
        fst (save_event_to_db (clock ui) (initialize_database (DB_FILE env) st)
               (sess (app env c st ui s))) \<and>
      user_inputs (sess (app env c st ui s)) = Some u \<and>
      files (db (app env c st ui s)) (realpath st ''events.db'') =
        Some (case files (initialize_database (DB_FILE env) st) (realpath st ''events.db'') of
                None \<Rightarrow> \<lparr>events = None\<rparr>
              | Some d \<Rightarrow>
                  (case events d of
                     None \<Rightarrow> d
                   | Some t \<Rightarrow>
                       d\<lparr>events := Some
                            \<lparr>table_rows =
                               table_rows t @
                                 [event_record (last_id t + 1) (clock ui) u
                                    (sess (app env c st ui s))],
                             last_id = last_id t + 1\<rparr>\<rparr>))"
    if h: "reachable s" "stage s = Final" "user_inputs s = Some u"
      "clicked ui = Some Save_Event_to_Database" "\<not> submitted ui" "api_key ui \<noteq> []"
      "page ui = Create_New_Event"
  proof -
    note a = save_run [OF h(1,2,4,5,6,7), of env c st]
    note b = save_run_inputs [OF h(1,2,3,5,6,7), of env c st]
    have "files (db (app env c st ui s)) (realpath st ''events.db'') =
        files (fst (save_event_to_db (clock ui) (initialize_database (DB_FILE env) st)
               (sess (app env c st ui s)))) (realpath st ''events.db'')"
      using a(1) by simp
    also have "\<dots> =
        Some (case files (initialize_database (DB_FILE env) st) (realpath st ''events.db'') of
                None \<Rightarrow> \<lparr>events = None\<rparr>
              | Some d \<Rightarrow>
                  (case events d of
                     None \<Rightarrow> d
                   | Some t \<Rightarrow>
                       d\<lparr>events := Some
                            \<lparr>table_rows =
                               table_rows t @
                                 [event_record (last_id t + 1) (clock ui) u
                                    (sess (app env c st ui s))],
                             last_id = last_id t + 1\<rparr>\<rparr>))"
      by (simp add: files_save b split: option.splits)
    finally show ?thesis using a b by simp
  qed
  show ?thesis
    using 1 2 3 4 5 files_initialize [of "DB_FILE env" st f] files_save [of now st s f]
      view_shows [of st] files_connect [of "''events.db''" st f]
      newest_first_order(1,2,3) [of rows]
      newest_first_order(4) [of k rows]
    by blast
qed

theorem saving_and_browsing_use_events_db_and_only_initialization_uses_DB_FILE_witness:
  "flow (app custom_env offline used_disk
           (click Save_Event_to_Database (visitor sunrise_yoga)) finished) = Done \<and>
   files (db (app custom_env offline used_disk
                (click Save_Event_to_Database (visitor sunrise_yoga)) finished)) ''custom.db'' =
     Some \<lparr>events = Some \<lparr>table_rows = [], last_id = 0\<rparr>\<rparr> \<and>
   files (db (app custom_env offline used_disk
                (click Save_Event_to_Database (visitor sunrise_yoga)) finished)) ''events.db'' =
     Some \<lparr>events = Some \<lparr>table_rows = [yoga_row], last_id = 1\<rparr>\<rparr> \<and>
   snd (view_events_page
          (db (app custom_env offline used_disk
                 (click Save_Event_to_Database (visitor sunrise_yoga)) finished))) =
     Events [yoga_row]"
proof -
  let ?ui = "click Save_Event_to_Database (visitor sunrise_yoga)"
  let ?r = "app custom_env offline used_disk ?ui finished"
  have h: "stage finished = Final"
    "user_inputs finished = Some sunrise_yoga" "clicked ?ui = Some Save_Event_to_Database"
    "\<not> submitted ?ui" "api_key ?ui \<noteq> []" "page ?ui = Create_New_Event"
    by (simp_all add: finished_eq click_def visitor_def)
  note h = reachable_finished h
  have p: "DB_FILE custom_env = ''custom.db''" "realpath used_disk = (\<lambda>path. path)"
    "clock ?ui = clock (visitor sunrise_yoga)"
    by (simp_all add: DB_FILE_def custom_env_def used_disk_eq click_def)
  note t = saving_and_browsing_use_events_db_and_only_initialization_uses_DB_FILE
    [where env = custom_env and c = offline and st = used_disk and ui = ?ui and s = finished
       and u = sunrise_yoga]
  from t h have a: "flow ?r = Done" by blast
  from t h have b: "user_inputs (sess ?r) = Some sunrise_yoga" by blast
  have s: "sess ?r = finished"
    by (simp add: finished_eq used_disk_eq run_defs example_defs custom_env_def
          save_event_to_db_def split: prod.splits)
  have i: "initialize_database ''custom.db'' used_disk =
      \<lparr>realpath = (\<lambda>path. path),
       files = [''events.db'' \<mapsto> \<lparr>events = Some \<lparr>table_rows = [], last_id = 0\<rparr>\<rparr>,
                ''custom.db'' \<mapsto> \<lparr>events = Some \<lparr>table_rows = [], last_id = 0\<rparr>\<rparr>]\<rparr>"
    by (simp add: used_disk_eq initialize_database_def connect_def write_file_def Let_def)
  from t h have "realpath used_disk (DB_FILE custom_env) \<noteq> realpath used_disk ''events.db'' \<longrightarrow>
      files (db ?r) (realpath used_disk (DB_FILE custom_env)) =
        files (initialize_database (DB_FILE custom_env) used_disk)
          (realpath used_disk (DB_FILE custom_env))"
    by blast
  then have c: "files (db ?r) ''custom.db'' =
      Some \<lparr>events = Some \<lparr>table_rows = [], last_id = 0\<rparr>\<rparr>"
    unfolding p by (simp add: i)
  from t h have "files (db ?r) (realpath used_disk ''events.db'') =
        Some (case files (initialize_database (DB_FILE custom_env) used_disk)
                     (realpath used_disk ''events.db'') of
                None \<Rightarrow> \<lparr>events = None\<rparr>
              | Some d \<Rightarrow>
                  (case events d of
                     None \<Rightarrow> d
                   | Some t \<Rightarrow>
                       d\<lparr>events := Some
                            \<lparr>table_rows =
                               table_rows t @
                                 [event_record (last_id t + 1) (clock ?ui) sunrise_yoga (sess ?r)],
                             last_id = last_id t + 1\<rparr>\<rparr>))"
    by blast
  then have d: "files (db ?r) ''events.db'' =
      Some \<lparr>events = Some \<lparr>table_rows = [yoga_row], last_id = 1\<rparr>\<rparr>"
    unfolding p s by (simp add: i yoga_row_eq)
  from t h have e: "db ?r =
      fst (save_event_to_db (clock ?ui) (initialize_database (DB_FILE custom_env) used_disk)
             (sess ?r))"
    by blast
  have q: "realpath (db ?r) ''events.db'' = ''events.db''"
    unfolding e by (simp add: p)
  from saving_and_browsing_use_events_db_and_only_initialization_uses_DB_FILE
    [where st = "db ?r"]
  have "view_events_page (db ?r) =
     (connect ''events.db'' (db ?r),
      (case files (db ?r) (realpath (db ?r) ''events.db'') of
         None \<Rightarrow> Database_error
       | Some d \<Rightarrow>
           (case events d of
              None \<Rightarrow> Database_error
            | Some t \<Rightarrow>
                (if table_rows t = [] then No_events
                 else Events (newest_first (table_rows t))))))"
    by blast
  then have v: "snd (view_events_page (db ?r)) = Events [yoga_row]"
    by (simp add: q d newest_first_def)
  from a c d v show ?thesis by simp
qed

text \<open>
  C10 as stated fails: a \<open>DB_FILE\<close> that differs from \<open>events.db\<close> as a string
  may name the same file, and then the record is saved into the file initialized.
\<close>

theorem another_path_to_events_db_is_the_file_initialized:
  "DB_FILE dot_env \<noteq> ''events.db'' \<and>
   realpath aliased_disk (DB_FILE dot_env) = ''events.db'' \<and>
   files (initialize_database (DB_FILE dot_env) aliased_disk) =
     [''events.db'' \<mapsto> \<lparr>events = Some \<lparr>table_rows = [], last_id = 0\<rparr>\<rparr>] \<and>
   files (db (app dot_env offline aliased_disk
                (click Save_Event_to_Database (visitor sunrise_yoga)) finished)) =
     [''events.db'' \<mapsto> \<lparr>events = Some \<lparr>table_rows = [yoga_row], last_id = 1\<rparr>\<rparr>]"
  by (simp add: finished_eq dot_env_def aliased_disk_def run_defs click_def visitor_def
        sunrise_yoga_def save_event_to_db_def event_record_def yoga_row_def isoformat_def
        time_defs)

text \<open>
  And when \<open>DB_FILE\<close> names another file and no earlier run has created the table in
  \<open>events.db\<close>, the save writes no record at all.
\<close>

lemma nothing_is_saved_without_the_table:
  "files (db (app custom_env offline empty_disk
                (click Save_Event_to_Database (visitor sunrise_yoga)) finished)) =
     [''custom.db'' \<mapsto> \<lparr>events = Some \<lparr>table_rows = [], last_id = 0\<rparr>\<rparr>,
      ''events.db'' \<mapsto> \<lparr>events = None\<rparr>]"
  by (simp add: finished_eq custom_env_def run_defs example_defs save_event_to_db_def)

end
